theory Spec2Isabelle
  imports Complex_Main "HOL-Library.AList"
begin

section \<open>Data model: tables of bars\<close>

text \<open>
  The two classes \<^verbatim>\<open>TimeframeData\<close> (\<^verbatim>\<open>libs/TimeframeData.py\<close>) and
  \<^verbatim>\<open>TimeFrameData\<close> (\<^verbatim>\<open>libs/__TimeFrameData.py\<close>) work on pandas tables.
  A table is modelled as its list of column names together with its rows in index order;
  a row is its timestamp and one cell for each column, in column order.
  A timestamp is an integer count of time units.  A cell is a number or pandas' missing
  value NaN, written \<open>None\<close>.  Numbers are exact rationals.  Taking the first, the
  last, the greatest or the least of a column is exact on machine numbers too; a sum is
  not (see \<open>exact_sum\<close> below).
\<close>

type_synonym cell = "rat option"

type_synonym row = "int \<times> cell list"

record 'c frame =
  columns :: "'c list"
  rows :: "row list"

definition index :: "'c frame \<Rightarrow> int list" where
  "index df = map fst (rows df)"

text \<open>
  The bar series of the specification: timestamps strictly increasing, column names
  distinct, every row as wide as the column list.
\<close>

definition bar_series :: "'c frame \<Rightarrow> bool" where
  "bar_series df \<longleftrightarrow>
     sorted_wrt (<) (index df) \<and> distinct (columns df) \<and>
     list_all (\<lambda>r. length (snd r) = length (columns df)) (rows df)"

text \<open>A row is complete when none of its cells is NaN.\<close>

definition complete_row :: "row \<Rightarrow> bool" where
  "complete_row r = list_all (\<lambda>c. c \<noteq> None) (snd r)"

text \<open>The Python exceptions that the modelled code can raise.\<close>

datatype error =
    ValueError string
  | KeyError
  | AttributeError
  | ZeroDivisionError

section \<open>Python strings and integers\<close>

definition lower_char :: "char \<Rightarrow> char" where
  "lower_char c =
     (case map_of (zip ''ABCDEFGHIJKLMNOPQRSTUVWXYZ'' ''abcdefghijklmnopqrstuvwxyz'') c of
        Some d \<Rightarrow> d
      | None \<Rightarrow> c)"

text \<open>\<^verbatim>\<open>s.lower()\<close>, on ASCII names.\<close>

definition lower :: "string \<Rightarrow> string" where
  "lower s = map lower_char s"

text \<open>\<^verbatim>\<open>sub in s\<close> on strings: \<open>sub\<close> occurs in \<open>s\<close> as a contiguous block.\<close>

fun contains :: "string \<Rightarrow> string \<Rightarrow> bool" where
  "contains sub [] = (sub = [])"
| "contains sub (c # cs) = (take (length sub) (c # cs) = sub \<or> contains sub cs)"

text \<open>\<^verbatim>\<open>s.endswith(suf)\<close>.\<close>

definition endswith :: "string \<Rightarrow> string \<Rightarrow> bool" where
  "endswith s suf \<longleftrightarrow> length suf \<le> length s \<and> drop (length s - length suf) s = suf"

text \<open>\<^verbatim>\<open>a // b\<close> on integers raises on a zero divisor; otherwise it is floor division,
  as \<open>div\<close> on \<open>int\<close> is.  \<^verbatim>\<open>a % b\<close> with a non-zero divisor is \<open>mod\<close>.\<close>

definition py_floordiv :: "int \<Rightarrow> int \<Rightarrow> error + int" where
  "py_floordiv a b = (if b = 0 then Inl ZeroDivisionError else Inr (a div b))"

text \<open>\<^verbatim>\<open>str(n)\<close> on integers, as an f-string renders them.\<close>

fun digits :: "nat \<Rightarrow> string" where
  "digits n =
     (if n < 10 then [''0123456789'' ! n]
      else digits (n div 10) @ [''0123456789'' ! (n mod 10)])"

definition py_str :: "int \<Rightarrow> string" where
  "py_str n = (if n < 0 then ''-'' @ digits (nat (- n)) else digits (nat n))"

section \<open>The pandas operations used by the code\<close>

subsection \<open>Aggregation of one column of one group\<close>

text \<open>
  pandas' group aggregations skip NaN: \<^verbatim>\<open>first\<close> and \<^verbatim>\<open>last\<close> give the first
  and last value that is not NaN, \<^verbatim>\<open>max\<close> and \<^verbatim>\<open>min\<close> range over the values that are
  not NaN, and all four give NaN for a group without such a value.  \<^verbatim>\<open>sum\<close> adds the
  values that are not NaN and is 0 when there is none.

  pandas adds machine numbers: an \<^verbatim>\<open>int64\<close> sum wraps around and a \<^verbatim>\<open>float64\<close> sum
  rounds.  The model adds exactly, so its sum is pandas' sum only where the machine sum is
  exact.  That is the case when the values are integers whose absolute values add up to
  less than \<open>2 ^ 53\<close>: every partial sum, in any order, is then an integer below
  \<open>2 ^ 53\<close> in absolute value, which both machine types hold exactly.  The predicate
  \<open>exact_sum\<close> states this condition for the cells of a column; statements about the value
  of a sum of two or more cells assume it.
\<close>

datatype aggfun = AggFirst | AggMax | AggMin | AggLast | AggSum

definition present :: "cell list \<Rightarrow> rat list" where
  "present cs = map the (filter (\<lambda>c. c \<noteq> None) cs)"

definition agg :: "aggfun \<Rightarrow> cell list \<Rightarrow> cell" where
  "agg f cs =
     (case f of
        AggFirst \<Rightarrow> (case present cs of [] \<Rightarrow> None | x # xs \<Rightarrow> Some x)
      | AggMax \<Rightarrow> (case present cs of [] \<Rightarrow> None | x # xs \<Rightarrow> Some (fold max xs x))
      | AggMin \<Rightarrow> (case present cs of [] \<Rightarrow> None | x # xs \<Rightarrow> Some (fold min xs x))
      | AggLast \<Rightarrow> (case present cs of [] \<Rightarrow> None | x # xs \<Rightarrow> Some (last (x # xs)))
      | AggSum \<Rightarrow> Some (sum_list (present cs)))"

definition exact_sum :: "cell list \<Rightarrow> bool" where
  "exact_sum cs \<longleftrightarrow>
     list_all (\<lambda>x. x \<in> \<int>) (present cs) \<and> sum_list (map abs (present cs)) < 2 ^ 53"

subsection \<open>Columns\<close>

text \<open>The position of a column name in the column list (its first occurrence).\<close>

fun position :: "'c \<Rightarrow> 'c list \<Rightarrow> nat" where
  "position c [] = 0"
| "position c (d # ds) = (if c = d then 0 else Suc (position c ds))"

text \<open>\<^verbatim>\<open>df[c]\<close> restricted to the rows \<open>rs\<close>: the cells of column \<open>c\<close>, in row order.\<close>

definition column_of :: "'c list \<Rightarrow> 'c \<Rightarrow> row list \<Rightarrow> cell list" where
  "column_of cols c rs = map (\<lambda>r. snd r ! position c cols) rs"

subsection \<open>Resampling\<close>

text \<open>
  \<^verbatim>\<open>resample(freq)\<close> cuts the time axis into consecutive bins.  A binning gives the
  ordinal number of the bin a timestamp falls into and the label pandas gives a bin.
  For a frequency of \<open>n\<close> minutes with \<open>n\<close> positive the bins are the \<open>n\<close>-minute buckets;
  timestamps then count minutes from pandas' origin (midnight of the first day).  Every
  other frequency belongs to pandas' calendar, which is a parameter of the model: it maps a
  frequency alias (\<^verbatim>\<open>D\<close>, \<^verbatim>\<open>W-MON\<close>, \<^verbatim>\<open>M\<close>, \<^verbatim>\<open>Y\<close>, \<^verbatim>\<open>3D\<close>, \<^verbatim>\<open>-5min\<close>, ...) to
  its binning, or to the exception that \<^verbatim>\<open>resample\<close> raises for it (\<^verbatim>\<open>ValueError\<close> for
  an invalid frequency, \<^verbatim>\<open>ZeroDivisionError\<close> for \<^verbatim>\<open>0D\<close>, ...).
\<close>

record binning =
  bin_of :: "int \<Rightarrow> int"
  label_of :: "int \<Rightarrow> int"

type_synonym calendar = "string \<Rightarrow> error + binning"

datatype freq = Minutes int | Alias string

definition minute_bins :: "int \<Rightarrow> binning" where
  "minute_bins n = \<lparr>bin_of = (\<lambda>t. t div n), label_of = (\<lambda>k. k * n)\<rparr>"

definition bins_for :: "calendar \<Rightarrow> freq \<Rightarrow> error + binning" where
  "bins_for cal f =
     (case f of
        Minutes n \<Rightarrow> (if 0 < n then Inr (minute_bins n) else cal (py_str n @ ''min''))
      | Alias a \<Rightarrow> cal a)"

text \<open>The rows of bin \<open>k\<close>.\<close>

definition in_bin :: "binning \<Rightarrow> int \<Rightarrow> row list \<Rightarrow> row list" where
  "in_bin b k rs = filter (\<lambda>r. bin_of b (fst r) = k) rs"

text \<open>
  \<^verbatim>\<open>df.resample(freq).agg(d)\<close> for a dictionary \<open>d\<close> from column names to aggregation
  names, kept as a list in insertion order.  \<^verbatim>\<open>resample\<close> raises what the calendar
  gives for the frequency.  \<^verbatim>\<open>agg\<close> raises \<^verbatim>\<open>ValueError\<close> for an empty dictionary and
  \<^verbatim>\<open>KeyError\<close> when a key of \<open>d\<close> is not a column.  pandas orders the rows by
  timestamp, then emits one row for every bin from the bin of the first row to the bin of
  the last row, also for a bin without rows; the output has the keys of \<open>d\<close> as its
  columns.
\<close>

definition resample_rows :: "binning \<Rightarrow> (string \<times> aggfun) list \<Rightarrow> string list \<Rightarrow> row list \<Rightarrow> row list" where
  "resample_rows b d cols rs =
     (if rs = [] then []
      else map (\<lambda>k. (label_of b k, map (\<lambda>(c, f). agg f (column_of cols c (in_bin b k rs))) d))
             [bin_of b (fst (hd rs)) .. bin_of b (fst (last rs))])"

definition resample_agg :: "calendar \<Rightarrow> freq \<Rightarrow> (string \<times> aggfun) list \<Rightarrow> string frame \<Rightarrow> error + string frame" where
  "resample_agg cal f d df =
     (case bins_for cal f of
        Inl e \<Rightarrow> Inl e
      | Inr b \<Rightarrow>
          if d = [] then Inl (ValueError ''No objects to concatenate'')
          else if list_ex (\<lambda>c. c \<notin> set (columns df)) (map fst d) then Inl KeyError
          else Inr \<lparr>columns = map fst d,
                    rows = resample_rows b d (columns df) (sort_key fst (rows df))\<rparr>)"

text \<open>\<^verbatim>\<open>dropna()\<close> drops the rows that have a NaN; \<^verbatim>\<open>dropna(how="all")\<close> drops the
  rows all of whose cells are NaN.\<close>

definition dropna :: "'c frame \<Rightarrow> 'c frame" where
  "dropna df = df\<lparr>rows := filter complete_row (rows df)\<rparr>"

definition dropna_all :: "'c frame \<Rightarrow> 'c frame" where
  "dropna_all df = df\<lparr>rows := filter (\<lambda>r. \<not> list_all (\<lambda>c. c = None) (snd r)) (rows df)\<rparr>"

section \<open>\<^verbatim>\<open>TimeframeData.convert\<close> and \<^verbatim>\<open>convertMany\<close>\<close>

text \<open>The target of a conversion is an \<^verbatim>\<open>int\<close>, a \<^verbatim>\<open>str\<close> or a value of another type.\<close>

datatype target = IntTF int | StrTF string | OtherTF

definition ohlcv_rules :: "(string \<times> aggfun) list" where
  "ohlcv_rules =
     [(''Open'', AggFirst), (''High'', AggMax), (''Low'', AggMin), (''Close'', AggLast), (''Volume'', AggSum)]"

definition InvalidConversion :: error where
  "InvalidConversion = ValueError ''Target timeframe must be a multiple of the source timeframe.''"

definition UnsupportedTimeframe :: error where
  "UnsupportedTimeframe = ValueError ''Unsupported higher timeframe. Use 'd', 'w', or 'm' suffix.''"

definition InvalidTargetType :: error where
  "InvalidTargetType =
     ValueError ''Invalid target timeframe type. Use int for intraday or str for higher timeframes.''"

text \<open>\<^verbatim>\<open>data.resample(freq).agg({...}).dropna()\<close>, the tail of both branches.\<close>

definition resample_ohlcv :: "calendar \<Rightarrow> freq \<Rightarrow> string frame \<Rightarrow> error + string frame" where
  "resample_ohlcv cal f data = map_sum id dropna (resample_agg cal f ohlcv_rules data)"

definition convert :: "calendar \<Rightarrow> string frame \<Rightarrow> int \<times> target \<Rightarrow> error + string frame" where
  "convert cal data conversion =
     (case conversion of (from_tf, to_tf) \<Rightarrow>
        (case to_tf of
           IntTF n \<Rightarrow>
             (case py_floordiv n from_tf of
                Inl e \<Rightarrow> Inl e
              | Inr factor \<Rightarrow>
                  if factor < 1 \<or> n mod from_tf \<noteq> 0 then Inl InvalidConversion
                  else resample_ohlcv cal (Minutes n) data)
         | StrTF s \<Rightarrow>
             if endswith s ''d'' then resample_ohlcv cal (Alias (butlast s @ ''D'')) data
             else if endswith s ''w'' then resample_ohlcv cal (Alias (butlast s @ ''W'')) data
             else if endswith s ''m'' then resample_ohlcv cal (Alias (butlast s @ ''M'')) data
             else Inl UnsupportedTimeframe
         | OtherTF \<Rightarrow> Inl InvalidTargetType))"

text \<open>
  The frequency alias that \<^verbatim>\<open>convert\<close> builds from a string target, by the same chain
  of suffix tests; \<open>None\<close> where \<^verbatim>\<open>convert\<close> raises the unsupported-timeframe error.
\<close>

definition target_alias :: "string \<Rightarrow> string option" where
  "target_alias s =
     (if endswith s ''d'' then Some (butlast s @ ''D'')
      else if endswith s ''w'' then Some (butlast s @ ''W'')
      else if endswith s ''m'' then Some (butlast s @ ''M'')
      else None)"

text \<open>
  \<^verbatim>\<open>data.columns.get_level_values(0).unique()\<close>: the symbols of a two-level table,
  each once, in the order of their first occurrence.
\<close>

definition symbols :: "(string \<times> string) frame \<Rightarrow> string list" where
  "symbols data = rev (remdups (rev (map fst (columns data))))"

text \<open>\<^verbatim>\<open>data[symbol]\<close>: the columns of one symbol, under their second-level names.\<close>

definition select_symbol :: "(string \<times> string) frame \<Rightarrow> string \<Rightarrow> string frame" where
  "select_symbol data symbol =
     \<lparr>columns = map snd (filter (\<lambda>c. fst c = symbol) (columns data)),
      rows = map (\<lambda>r. (fst r, map snd (filter (\<lambda>p. fst (fst p) = symbol) (zip (columns data) (snd r)))))
               (rows data)\<rparr>"

text \<open>
  The dictionary comprehension of \<^verbatim>\<open>convertMany\<close> evaluates \<^verbatim>\<open>convert\<close> symbol by
  symbol; there is no \<^verbatim>\<open>try\<close> around it, so the first exception leaves the
  comprehension.  The dictionary is kept as the list of its items.
\<close>

fun convert_each :: "calendar \<Rightarrow> (string \<times> string) frame \<Rightarrow> int \<times> target \<Rightarrow> string list \<Rightarrow> error + (string \<times> string frame) list" where
  "convert_each cal data conversion [] = Inr []"
| "convert_each cal data conversion (symbol # rest) =
     (case convert cal (select_symbol data symbol) conversion of
        Inl e \<Rightarrow> Inl e
      | Inr out \<Rightarrow>
          (case convert_each cal data conversion rest of
             Inl e \<Rightarrow> Inl e
           | Inr m \<Rightarrow> Inr ((symbol, out) # m)))"

definition convertMany :: "calendar \<Rightarrow> (string \<times> string) frame \<Rightarrow> int \<times> target \<Rightarrow> error + (string \<times> string frame) list" where
  "convertMany cal data conversion = convert_each cal data conversion (symbols data)"

section \<open>\<^verbatim>\<open>TimeFrameData.toTimeframe\<close>\<close>

text \<open>A timeframe label is a string or \<^verbatim>\<open>None\<close>.\<close>

type_synonym label = "string option"

definition freq_map :: "string \<Rightarrow> string option" where
  "freq_map = map_of [(''day'', ''D''), (''week'', ''W-MON''), (''month'', ''M''), (''year'', ''Y'')]"

text \<open>\<^verbatim>\<open>self.tf_priority[tf]\<close>; \<open>None\<close> where the lookup raises \<^verbatim>\<open>KeyError\<close>.\<close>

definition tf_priority :: "label \<Rightarrow> nat option" where
  "tf_priority tf =
     (case tf of
        None \<Rightarrow> None
      | Some l \<Rightarrow> map_of [(''day'', 1), (''week'', 2), (''month'', 3), (''year'', 4)] l)"

text \<open>\<^verbatim>\<open>self.freq_map.get(timeframe, "D")\<close>.\<close>

definition freq_of :: "label \<Rightarrow> string" where
  "freq_of timeframe =
     (case timeframe of
        None \<Rightarrow> ''D''
      | Some l \<Rightarrow> (case freq_map l of None \<Rightarrow> ''D'' | Some a \<Rightarrow> a))"

definition default_ohlc :: "string list" where
  "default_ohlc = [''Open'', ''High'', ''Low'', ''Close'']"

text \<open>The aggregation chosen for one column; \<open>None\<close> where the loop body assigns nothing.\<close>

definition agg_rule :: "string list \<Rightarrow> string \<Rightarrow> aggfun option" where
  "agg_rule ohlc col =
     (let col_lower = lower col in
      if col_lower \<in> set (map lower ohlc) then
        (if contains ''open'' col_lower then Some AggFirst
         else if contains ''high'' col_lower then Some AggMax
         else if contains ''low'' col_lower then Some AggMin
         else if contains ''close'' col_lower then Some AggLast
         else None)
      else if contains ''volume'' col_lower then Some AggSum
      else Some AggLast)"

definition agg_dict :: "string list \<Rightarrow> string list \<Rightarrow> (string \<times> aggfun) list" where
  "agg_dict ohlc cols =
     fold (\<lambda>col d. case agg_rule ohlc col of None \<Rightarrow> d | Some f \<Rightarrow> AList.update col f d) cols []"

text \<open>
  \<^verbatim>\<open>toTimeframe(data, timeframe, ohlc)\<close> on a table with flat column names.  Its calendar
  is pandas' binning for \<^verbatim>\<open>resample(freq, label="left", closed="left")\<close>.
\<close>

definition toTimeframe :: "calendar \<Rightarrow> string frame \<Rightarrow> label \<Rightarrow> string list option \<Rightarrow> error + (string \<times> string) frame" where
  "toTimeframe cal data timeframe ohlc_arg =
     (let ohlc = (case ohlc_arg of None \<Rightarrow> default_ohlc | Some l \<Rightarrow> l);
          d = agg_dict ohlc (columns data);
          freq = freq_of timeframe
      in case resample_agg cal (Alias freq) d data of
           Inl e \<Rightarrow> Inl e
         | Inr out \<Rightarrow>
             Inr \<lparr>columns = map (Pair ''Price'') (columns (dropna_all out)),
                  rows = rows (dropna_all out)\<rparr>)"

section \<open>\<^verbatim>\<open>TimeFrameData._to_higher_tf_accurate\<close>\<close>

text \<open>
  The dictionary \<^verbatim>\<open>ohlc_cols\<close>: for each of the five roles the column found for it, or
  \<^verbatim>\<open>None\<close>.  The loop over the column names keeps the last column that matches a role.
\<close>

record ohlc_cols =
  oc_open :: "string option"
  oc_high :: "string option"
  oc_low :: "string option"
  oc_close :: "string option"
  oc_volume :: "string option"

definition detect_column :: "string \<Rightarrow> ohlc_cols \<Rightarrow> ohlc_cols" where
  "detect_column c oc =
     (let c_lower = lower c in
      if contains ''open'' c_lower then oc\<lparr>oc_open := Some c\<rparr>
      else if contains ''high'' c_lower then oc\<lparr>oc_high := Some c\<rparr>
      else if contains ''low'' c_lower then oc\<lparr>oc_low := Some c\<rparr>
      else if contains ''close'' c_lower then oc\<lparr>oc_close := Some c\<rparr>
      else if contains ''volume'' c_lower then oc\<lparr>oc_volume := Some c\<rparr>
      else oc)"

definition detect_ohlc :: "string list \<Rightarrow> ohlc_cols" where
  "detect_ohlc simple_cols =
     fold detect_column simple_cols
       \<lparr>oc_open = None, oc_high = None, oc_low = None, oc_close = None, oc_volume = None\<rparr>"

text \<open>
  One of the five guarded assignments \<^verbatim>\<open>if ohlc_cols[k] in group_slice.columns:
  row_dict[ohlc_cols[k]] = f(part[ohlc_cols[k]])\<close>.  On a column of \<^verbatim>\<open>part\<close>,
  \<^verbatim>\<open>.iloc[0]\<close> is \<open>hd\<close>, \<^verbatim>\<open>.iloc[-1]\<close> is \<open>last\<close>, and \<^verbatim>\<open>.max()\<close>,
  \<^verbatim>\<open>.min()\<close>, \<^verbatim>\<open>.sum()\<close> skip NaN as the group aggregations do.
\<close>

definition put_known :: "string option \<Rightarrow> string list \<Rightarrow> (cell list \<Rightarrow> cell) \<Rightarrow> row list \<Rightarrow> (string \<times> cell) list \<Rightarrow> (string \<times> cell) list" where
  "put_known known cols f part row_dict =
     (case known of
        None \<Rightarrow> row_dict
      | Some c \<Rightarrow>
          if c \<in> set cols then AList.update c (f (column_of cols c part)) row_dict
          else row_dict)"

text \<open>The body of \<^verbatim>\<open>for c in all_cols: if c not in row_dict and c in part.columns: ...\<close>.\<close>

definition put_rest :: "string list \<Rightarrow> row list \<Rightarrow> string \<Rightarrow> (string \<times> cell) list \<Rightarrow> (string \<times> cell) list" where
  "put_rest cols part c row_dict =
     (if c \<notin> fst ` set row_dict \<and> c \<in> set cols
      then AList.update c (last (column_of cols c part)) row_dict
      else row_dict)"

definition row_dict_of :: "ohlc_cols \<Rightarrow> string list \<Rightarrow> row list \<Rightarrow> (string \<times> cell) list" where
  "row_dict_of oc cols part =
     fold (put_rest cols part) cols
       (put_known (oc_volume oc) cols (agg AggSum) part
         (put_known (oc_close oc) cols last part
           (put_known (oc_low oc) cols (agg AggMin) part
             (put_known (oc_high oc) cols (agg AggMax) part
               (put_known (oc_open oc) cols hd part [])))))"

text \<open>A row of \<^verbatim>\<open>pd.DataFrame(agg_rows, ..., columns=all_cols)\<close>: a column without entry
  in the dictionary is NaN.\<close>

definition dict_cells :: "string list \<Rightarrow> (string \<times> cell) list \<Rightarrow> cell list" where
  "dict_cells cols d = map (\<lambda>c. case map_of d c of None \<Rightarrow> None | Some v \<Rightarrow> v) cols"

text \<open>The inner loop over \<^verbatim>\<open>i\<close>, with \<^verbatim>\<open>part = group_slice.iloc[: i+1]\<close>.\<close>

definition agg_group :: "ohlc_cols \<Rightarrow> string list \<Rightarrow> row list \<Rightarrow> row list" where
  "agg_group oc cols group_slice =
     map (\<lambda>i. (fst (group_slice ! i), dict_cells cols (row_dict_of oc cols (take (i + 1) group_slice))))
       [0..<length group_slice]"

text \<open>
  \<^verbatim>\<open>result.loc[group_slice.index] = agg_group_df\<close>: the rows of \<open>result\<close> whose
  timestamp is in the new rows take their cells from there.  The model is that of an index
  without duplicates.
\<close>

definition loc_assign :: "row list \<Rightarrow> row list \<Rightarrow> row list" where
  "loc_assign result new_rows =
     map (\<lambda>r. case map_of new_rows (fst r) of None \<Rightarrow> r | Some cells \<Rightarrow> (fst r, cells)) result"

text \<open>
  \<^verbatim>\<open>index.to_period(freq)\<close> belongs to pandas' calendar: the parameter \<open>per\<close> gives,
  for a frequency alias, the ordinal number of the period a timestamp lies in.  The groups
  of \<^verbatim>\<open>groupby(period_index)\<close> come in the order of their periods.
\<close>

type_synonym periods = "string \<Rightarrow> int \<Rightarrow> int"

definition to_higher_tf_accurate :: "periods \<Rightarrow> string frame \<Rightarrow> label \<Rightarrow> error + string frame" where
  "to_higher_tf_accurate per base_df higher_tf =
     (let freq = freq_of higher_tf in
      case tf_priority higher_tf of
        None \<Rightarrow> Inl KeyError
      | Some p \<Rightarrow>
          (case tf_priority (Some ''day'') of
             None \<Rightarrow> Inl KeyError
           | Some p_day \<Rightarrow>
               if p \<le> p_day then Inr base_df
               else
                 let period_index = map (per freq) (index base_df);
                     all_cols = columns base_df;
                     oc = detect_ohlc all_cols;
                     result = map (\<lambda>t. (t, replicate (length all_cols) None)) (index base_df)
                 in Inr \<lparr>columns = all_cols,
                         rows = fold (\<lambda>period_val res.
                                        loc_assign res
                                          (agg_group oc all_cols
                                             (filter (\<lambda>r. per freq (fst r) = period_val) (rows base_df))))
                                  (sort (remdups period_index)) result\<rparr>))"

text \<open>The rows of the period of \<open>t\<close> with timestamps up to \<open>t\<close>.\<close>

definition seen_so_far :: "(int \<Rightarrow> int) \<Rightarrow> row list \<Rightarrow> int \<Rightarrow> row list" where
  "seen_so_far period rs t = filter (\<lambda>r. period (fst r) = period t \<and> fst r \<le> t) rs"

text \<open>
  The cell that \<open>row_dict_of\<close> holds for a column, from the cells \<open>vs\<close> of that column in
  \<^verbatim>\<open>part\<close>.  A later assignment would overwrite an earlier one, hence the order.
\<close>

definition running_value :: "ohlc_cols \<Rightarrow> string \<Rightarrow> cell list \<Rightarrow> cell" where
  "running_value oc c vs =
     (if oc_volume oc = Some c then agg AggSum vs
      else if oc_close oc = Some c then last vs
      else if oc_low oc = Some c then agg AggMin vs
      else if oc_high oc = Some c then agg AggMax vs
      else if oc_open oc = Some c then hd vs
      else last vs)"

section \<open>\<^verbatim>\<open>TimeFrameData.mergeTimeframes\<close>\<close>

text \<open>
  The entries of \<^verbatim>\<open>mergeTimeframes\<close> carry tables with flat column names, or
  \<^verbatim>\<open>None\<close>.  Inside the loop a higher-timeframe table is such a table or an output of
  \<^verbatim>\<open>toTimeframe\<close>, whose column names are pairs.
\<close>

datatype table = FlatT "string frame" | MultiT "(string \<times> string) frame"

text \<open>
  \<^verbatim>\<open>_rename_cols\<close>: a pair \<open>(group, field)\<close> becomes \<open>(group, field_suffix)\<close>, a flat
  name \<open>c\<close> becomes \<open>(c, suffix)\<close>.
\<close>

fun rename_cols :: "table \<Rightarrow> string \<Rightarrow> (string \<times> string) frame" where
  "rename_cols (MultiT df) suffix =
     \<lparr>columns = map (\<lambda>col. (fst col, snd col @ ''_'' @ suffix)) (columns df), rows = rows df\<rparr>"
| "rename_cols (FlatT df) suffix =
     \<lparr>columns = map (\<lambda>col. (col, suffix)) (columns df), rows = rows df\<rparr>"

text \<open>
  The label as a suffix.  The label \<^verbatim>\<open>None\<close> reaches \<^verbatim>\<open>_rename_cols\<close> only with an
  output of \<^verbatim>\<open>toTimeframe\<close>, where the f-string renders it as the text \<^verbatim>\<open>None\<close>.
\<close>

definition label_text :: "label \<Rightarrow> string" where
  "label_text tf = (case tf of None \<Rightarrow> ''None'' | Some l \<Rightarrow> l)"

text \<open>
  \<^verbatim>\<open>df.reindex(idx, method="ffill")\<close>: each timestamp of \<open>idx\<close> gets the cells of the
  last row of \<open>df\<close>, in index order, that does not come after it, or NaN when there is
  none: on an increasing index the last row with a timestamp at most \<open>t\<close>, on a decreasing
  index the last row with a timestamp at least \<open>t\<close>.  pandas raises \<^verbatim>\<open>ValueError\<close> on
  duplicate labels and on an index that is not monotonic.
\<close>

definition reindex_ffill :: "'c frame \<Rightarrow> int list \<Rightarrow> error + 'c frame" where
  "reindex_ffill df idx =
     (if \<not> distinct (index df) then Inl (ValueError ''cannot reindex on an axis with duplicate labels'')
      else if \<not> sorted (index df) \<and> \<not> sorted (rev (index df))
      then Inl (ValueError ''index must be monotonic increasing or decreasing'')
      else Inr \<lparr>columns = columns df,
                rows = map (\<lambda>t. (t, case filter (\<lambda>r. if sorted (index df) then fst r \<le> t
                                                        else t \<le> fst r) (rows df) of
                                       [] \<Rightarrow> replicate (length (columns df)) None
                                     | r # rs \<Rightarrow> snd (last (r # rs)))) idx\<rparr>)"

text \<open>
  \<^verbatim>\<open>left.join(right, how="outer")\<close>: pandas raises \<^verbatim>\<open>ValueError\<close> when a column name is
  on both sides; otherwise the rows are those of the union of the two indexes, in
  increasing order, with NaN where a side has no row.  The model is that of indexes
  without duplicates.
\<close>

definition cells_at :: "'c frame \<Rightarrow> int \<Rightarrow> cell list" where
  "cells_at df t =
     (case map_of (rows df) t of
        None \<Rightarrow> replicate (length (columns df)) None
      | Some cells \<Rightarrow> cells)"

definition join_outer :: "'c frame \<Rightarrow> 'c frame \<Rightarrow> error + 'c frame" where
  "join_outer left right =
     (if list_ex (\<lambda>c. c \<in> set (columns right)) (columns left)
      then Inl (ValueError ''columns overlap but no suffix specified'')
      else Inr \<lparr>columns = columns left @ columns right,
                rows = map (\<lambda>t. (t, cells_at left t @ cells_at right t))
                         (sort (remdups (index left @ index right)))\<rparr>)"

text \<open>
  \<^verbatim>\<open>min(timeframes, key=lambda x: self.tf_priority[x])\<close> on a list that is not empty:
  \<^verbatim>\<open>KeyError\<close> when a label has no priority, otherwise the first label of least priority.
\<close>

definition min_timeframe :: "string list \<Rightarrow> error + string" where
  "min_timeframe timeframes =
     (if list_ex (\<lambda>tf. tf_priority (Some tf) = None) timeframes then Inl KeyError
      else Inr (fold (\<lambda>tf best. if the (tf_priority (Some tf)) < the (tf_priority (Some best))
                                 then tf else best)
                  (tl timeframes) (hd timeframes)))"

text \<open>
  The body of the loop up to the renaming, for an entry whose label is not the base label.
  The table is derived with \<^verbatim>\<open>toTimeframe\<close> only when the \<^emph>\<open>label\<close> is \<^verbatim>\<open>None\<close>;
  otherwise \<^verbatim>\<open>df_higher\<close> stays what the entry holds.  In fast mode
  \<^verbatim>\<open>df_higher.reindex\<close> follows, which raises \<^verbatim>\<open>AttributeError\<close> on \<^verbatim>\<open>None\<close>; in
  accurate mode \<^verbatim>\<open>df_higher\<close> is overwritten with the re-aggregation of the base.
\<close>

definition higher_frame :: "calendar \<Rightarrow> periods \<Rightarrow> string frame \<Rightarrow> bool \<Rightarrow> int list \<Rightarrow> string frame option \<times> label \<Rightarrow> error + table" where
  "higher_frame cal per base_df fast result_index entry =
     (case entry of (df_higher, tf_higher) \<Rightarrow>
        (case (if tf_higher = None
               then map_sum id (\<lambda>df. Some (MultiT df)) (toTimeframe cal base_df tf_higher None)
               else Inr (map_option FlatT df_higher)) of
           Inl e \<Rightarrow> Inl e
         | Inr df_higher' \<Rightarrow>
             if fast then
               (case df_higher' of
                  None \<Rightarrow> Inl AttributeError
                | Some (FlatT df) \<Rightarrow> map_sum id FlatT (reindex_ffill df result_index)
                | Some (MultiT df) \<Rightarrow> map_sum id MultiT (reindex_ffill df result_index))
             else map_sum id FlatT (to_higher_tf_accurate per base_df tf_higher)))"

fun merge_loop :: "calendar \<Rightarrow> periods \<Rightarrow> string frame \<Rightarrow> string \<Rightarrow> bool \<Rightarrow> (string frame option \<times> label) list \<Rightarrow> (string \<times> string) frame \<Rightarrow> error + (string \<times> string) frame" where
  "merge_loop cal per base_df min_tf fast [] result = Inr result"
| "merge_loop cal per base_df min_tf fast (entry # rest) result =
     (if snd entry = Some min_tf then merge_loop cal per base_df min_tf fast rest result
      else
        case higher_frame cal per base_df fast (index result) entry of
          Inl e \<Rightarrow> Inl e
        | Inr df_higher \<Rightarrow>
            (case join_outer result (rename_cols df_higher (label_text (snd entry))) of
               Inl e \<Rightarrow> Inl e
             | Inr result' \<Rightarrow> merge_loop cal per base_df min_tf fast rest result'))"

text \<open>\<^verbatim>\<open>[tf for (_, tf) in data if tf is not None]\<close>.\<close>

definition timeframes_of :: "(string frame option \<times> label) list \<Rightarrow> string list" where
  "timeframes_of data = map the (filter (\<lambda>tf. tf \<noteq> None) (map snd data))"

definition mergeTimeframes :: "calendar \<Rightarrow> periods \<Rightarrow> (string frame option \<times> label) list \<Rightarrow> bool \<Rightarrow> error + (string \<times> string) frame" where
  "mergeTimeframes cal per data fast =
     (let timeframes = timeframes_of data in
      if timeframes = [] then Inl (ValueError ''No valid timeframes provided for merging.'')
      else
        case min_timeframe timeframes of
          Inl e \<Rightarrow> Inl e
        | Inr min_tf \<Rightarrow>
            (case filter (\<lambda>entry. snd entry = Some min_tf) data of
               [] \<Rightarrow> Inl (ValueError (''No data for smallest timeframe: '' @ min_tf))
             | base # others \<Rightarrow>
                 (case fst base of
                    None \<Rightarrow> Inl (ValueError ''Base (smallest timeframe) DataFrame cannot be None.'')
                  | Some base_df \<Rightarrow>
                      merge_loop cal per base_df min_tf fast data (rename_cols (FlatT base_df) min_tf))))"

section \<open>The aggregation rules of the specification\<close>

text \<open>
  The value the specification gives a column \<open>c\<close> in the bar of a period, from the cells
  \<open>vs\<close> of that column in the rows \<open>r1..rn\<close> of the period: the first for Open, the
  greatest for High, the least for Low, the last for Close, the sum for a column whose name
  contains \<^verbatim>\<open>volume\<close> (so for Volume), the last for any other column.  Names are
  compared in lower case.
\<close>

definition period_value :: "string \<Rightarrow> cell list \<Rightarrow> cell" where
  "period_value c vs =
     (if lower c = ''open'' then hd vs
      else if lower c = ''high'' then Some (Max (set (map the vs)))
      else if lower c = ''low'' then Some (Min (set (map the vs)))
      else if lower c = ''close'' then last vs
      else if contains ''volume'' (lower c) then Some (sum_list (map the vs))
      else last vs)"

text \<open>
  The summed columns of a group of rows are exact: every column with \<^verbatim>\<open>volume\<close> in its
  name meets \<open>exact_sum\<close> on the rows \<open>g\<close>.
\<close>

definition exact_sums :: "string list \<Rightarrow> row list \<Rightarrow> bool" where
  "exact_sums cols g \<longleftrightarrow>
     list_all (\<lambda>c. contains ''volume'' (lower c) \<longrightarrow> exact_sum (column_of cols c g)) cols"

text \<open>
  The bar that the specification gives the period of a row \<open>r\<close>: the label of the bin of
  \<open>r\<close> and, for each column of the output, the value of the rule over the rows of that bin.
\<close>

definition period_bar :: "binning \<Rightarrow> string list \<Rightarrow> row list \<Rightarrow> row \<Rightarrow> string list \<Rightarrow> row" where
  "period_bar b cols rs r out_cols =
     (label_of b (bin_of b (fst r)),
      map (\<lambda>c. period_value c (column_of cols c (in_bin b (bin_of b (fst r)) rs))) out_cols)"

section \<open>Example data\<close>

text \<open>
  The specification's end-to-end scenario: five one-minute bars with opens 10 to 14, highs
  one above the open, lows and closes at the open, and volume 100 each.
\<close>

definition five_minutes :: "string frame" where
  "five_minutes =
     \<lparr>columns = [''Open'', ''High'', ''Low'', ''Close'', ''Volume''],
      rows = [(0, [Some 10, Some 11, Some 10, Some 10, Some 100]),
              (1, [Some 11, Some 12, Some 11, Some 11, Some 100]),
              (2, [Some 12, Some 13, Some 12, Some 12, Some 100]),
              (3, [Some 13, Some 14, Some 13, Some 13, Some 100]),
              (4, [Some 14, Some 15, Some 14, Some 14, Some 100])]\<rparr>"

text \<open>A pandas calendar that rejects every alias, for conversions that use none.\<close>

definition no_calendar :: calendar where
  "no_calendar = (\<lambda>a. Inl (ValueError (''Invalid frequency: '' @ a)))"

text \<open>
  A calendar for daily series whose timestamps count days from a Monday: days, and weeks
  that start on Monday.
\<close>

definition day_calendar :: calendar where
  "day_calendar a =
     (if a = ''D'' then Inr \<lparr>bin_of = (\<lambda>t. t), label_of = (\<lambda>k. k)\<rparr>
      else if a = ''W-MON'' then Inr \<lparr>bin_of = (\<lambda>t. t div 7), label_of = (\<lambda>k. k * 7)\<rparr>
      else Inl (ValueError (''Invalid frequency: '' @ a)))"

text \<open>
  The calendar of \<^verbatim>\<open>resample("1W")\<close> on the same timestamps: weeks that end on Sunday
  and carry the Sunday as label.
\<close>

definition sunday_weeks :: calendar where
  "sunday_weeks a =
     (if a = ''1W'' then Inr \<lparr>bin_of = (\<lambda>t. t div 7), label_of = (\<lambda>k. k * 7 + 6)\<rparr>
      else Inl (ValueError (''Invalid frequency: '' @ a)))"

text \<open>Two daily bars, on day 0 and on day 2; day 1 has no bar.\<close>

definition holiday_gap :: "string frame" where
  "holiday_gap =
     \<lparr>columns = [''Open'', ''High'', ''Low'', ''Close'', ''Volume''],
      rows = [(0, [Some 10, Some 11, Some 9, Some 10, Some 100]),
              (2, [Some 12, Some 13, Some 11, Some 12, Some 300])]\<rparr>"

text \<open>Two symbols; \<^verbatim>\<open>B\<close> has no volume column.\<close>

definition two_symbols :: "(string \<times> string) frame" where
  "two_symbols =
     \<lparr>columns = [(''A'', ''Open''), (''A'', ''High''), (''A'', ''Low''), (''A'', ''Close''),
                 (''A'', ''Volume''),
                 (''B'', ''Open''), (''B'', ''High''), (''B'', ''Low''), (''B'', ''Close'')],
      rows = [(0, [Some 10, Some 11, Some 9, Some 10, Some 100, Some 5, Some 6, Some 4, Some 5]),
              (1, [Some 10, Some 12, Some 10, Some 11, Some 200, Some 5, Some 7, Some 5, Some 6])]\<rparr>"

text \<open>Two one-minute bars with an adjusted close beside the five OHLCV columns.\<close>

definition with_adj_close :: "string frame" where
  "with_adj_close =
     \<lparr>columns = [''Open'', ''High'', ''Low'', ''Close'', ''Adj Close'', ''Volume''],
      rows = [(0, [Some 10, Some 11, Some 9, Some 10, Some 8, Some 100]),
              (1, [Some 10, Some 12, Some 10, Some 11, Some 9, Some 200])]\<rparr>"

text \<open>Periods for timestamps that count days: weeks of seven days.\<close>

definition week_periods :: periods where
  "week_periods freq t = (if freq = ''W-MON'' then t div 7 else t)"

text \<open>Four daily bars, two in each of two weeks.\<close>

definition two_weeks :: "string frame" where
  "two_weeks =
     \<lparr>columns = [''Open'', ''High'', ''Low'', ''Close'', ''Volume''],
      rows = [(4, [Some 10, Some 11, Some 9, Some 10, Some 100]),
              (5, [Some 10, Some 14, Some 10, Some 13, Some 200]),
              (7, [Some 13, Some 15, Some 12, Some 14, Some 300]),
              (8, [Some 14, Some 16, Some 8, Some 9, Some 400])]\<rparr>"

text \<open>The same series with its last bar replaced by another bar on a later day.\<close>

definition two_weeks_revised :: "string frame" where
  "two_weeks_revised =
     \<lparr>columns = [''Open'', ''High'', ''Low'', ''Close'', ''Volume''],
      rows = [(4, [Some 10, Some 11, Some 9, Some 10, Some 100]),
              (5, [Some 10, Some 14, Some 10, Some 13, Some 200]),
              (7, [Some 13, Some 15, Some 12, Some 14, Some 300]),
              (9, [Some 20, Some 30, Some 1, Some 25, Some 900])]\<rparr>"

text \<open>A weekly series as a caller might supply it.\<close>

definition supplied_week :: "string frame" where
  "supplied_week =
     \<lparr>columns = [''Open'', ''High'', ''Low'', ''Close'', ''Volume''],
      rows = [(0, [Some 1, Some 2, Some 1, Some 2, Some 5]),
              (7, [Some 3, Some 4, Some 3, Some 4, Some 6])]\<rparr>"

section \<open>The examples are summed exactly\<close>

text \<open>
  The cells of the example tables are small integers: every sum over rows of them is
  exact, in the model as in pandas.
\<close>

lemma lower_ohlcv:
  "lower ''Open'' = ''open''" "lower ''High'' = ''high''" "lower ''Low'' = ''low''"
  "lower ''Close'' = ''close''" "lower ''Volume'' = ''volume''" "lower ''Adj Close'' = ''adj close''"
  by (simp_all add: lower_def lower_char_def)

lemma examples_exact:
  "exact_sums (columns five_minutes) (rows five_minutes)"
  "exact_sums (columns holiday_gap) (rows holiday_gap)"
  "exact_sums (columns with_adj_close) (rows with_adj_close)"
  "exact_sums (columns two_weeks) (rows two_weeks)"
  "exact_sums (columns two_weeks_revised) (rows two_weeks_revised)"
  "exact_sums (columns (select_symbol two_symbols ''A'')) (rows (select_symbol two_symbols ''A''))"
  by (simp_all add: exact_sums_def exact_sum_def present_def column_of_def lower_ohlcv
      five_minutes_def holiday_gap_def with_adj_close_def two_weeks_def two_weeks_revised_def
      select_symbol_def two_symbols_def)

lemma py_str_examples: "py_str 15 = ''15''" "py_str 0 = ''0''" "py_str (- 5) = ''-5''"
  by (simp_all add: py_str_def)

section \<open>Validation of an intraday conversion\<close>

lemma ohlcv_rules_nonempty: "ohlcv_rules \<noteq> []"
  by (simp add: ohlcv_rules_def)

lemma resample_ohlcv_minutes:
  assumes "0 < n" and "set (map fst ohlcv_rules) \<subseteq> set (columns data)"
  shows "\<exists>out. resample_ohlcv cal (Minutes n) data = Inr out"
proof -
  have "\<not> list_ex (\<lambda>c. c \<notin> set (columns data)) (map fst ohlcv_rules)"
    using assms(2) by (auto simp: list_ex_iff)
  then show ?thesis
    using assms(1)
    by (simp add: resample_ohlcv_def resample_agg_def bins_for_def ohlcv_rules_nonempty)
qed

text \<open>
  C3.  For positive integer timeframes and a series that has the five OHLCV columns,
  \<^verbatim>\<open>convert\<close> with an integer target returns a series exactly when the target is a
  multiple of the source (\<open>to mod from = 0\<close>) with ratio \<open>to div from\<close> at least 1, and it
  raises the multiple-of \<^verbatim>\<open>ValueError\<close> (the specification's InvalidConversion) in every
  other case.
\<close>

theorem convert_multiple_of:
  assumes "0 < from_tf" and "0 < to_tf"
    and "set (map fst ohlcv_rules) \<subseteq> set (columns data)"
  shows "((\<exists>out. convert cal data (from_tf, IntTF to_tf) = Inr out)
            \<longleftrightarrow> to_tf mod from_tf = 0 \<and> 1 \<le> to_tf div from_tf)
         \<and> (\<not> (to_tf mod from_tf = 0 \<and> 1 \<le> to_tf div from_tf)
            \<longrightarrow> convert cal data (from_tf, IntTF to_tf) = Inl InvalidConversion)"
proof (cases "to_tf mod from_tf = 0 \<and> 1 \<le> to_tf div from_tf")
  case True
  then have "convert cal data (from_tf, IntTF to_tf) = resample_ohlcv cal (Minutes to_tf) data"
    using assms(1) by (simp add: convert_def py_floordiv_def)
  then show ?thesis
    using True resample_ohlcv_minutes [OF assms(2) assms(3)] by simp
next
  case False
  then have "convert cal data (from_tf, IntTF to_tf) = Inl InvalidConversion"
    using assms(1) by (auto simp: convert_def py_floordiv_def)
  then show ?thesis
    using False by simp
qed

theorem convert_multiple_of_witness:
  "(\<exists>out. convert no_calendar five_minutes (1, IntTF 15) = Inr out)
   \<and> convert no_calendar five_minutes (5, IntTF 12) = Inl InvalidConversion"
  using convert_multiple_of [of 1 15 five_minutes no_calendar]
    convert_multiple_of [of 5 12 five_minutes no_calendar]
  by (simp add: five_minutes_def ohlcv_rules_def)

text \<open>
  C10.  With a source timeframe of 0 and an integer target, \<^verbatim>\<open>convert\<close> raises
  \<^verbatim>\<open>ZeroDivisionError\<close>, whatever the target and the data: the floor division is
  evaluated before the multiple-of check.  The error is not the validation error.
\<close>

theorem convert_zero_source:
  "convert cal data (0, IntTF to_tf) = Inl ZeroDivisionError
   \<and> ZeroDivisionError \<noteq> InvalidConversion"
  by (simp add: convert_def py_floordiv_def InvalidConversion_def)

section \<open>Strings that name no calendar granularity\<close>

lemma agg_dict_ohlcv:
  "agg_dict default_ohlc [''Open'', ''High'', ''Low'', ''Close'', ''Volume''] = ohlcv_rules"
  by (simp add: agg_dict_def agg_rule_def default_ohlc_def lower_def lower_char_def ohlcv_rules_def)

lemma freq_of_unknown: "freq_map l = None \<Longrightarrow> freq_of (Some l) = ''D''"
  by (simp add: freq_of_def)

lemma freq_of_day: "freq_of (Some ''day'') = ''D''"
  by (simp add: freq_of_def freq_map_def)

text \<open>
  C8, as the code has it.  \<^verbatim>\<open>TimeframeData.convert\<close> raises the unsupported-timeframe
  \<^verbatim>\<open>ValueError\<close> for every string target that ends in none of \<^verbatim>\<open>d\<close>, \<^verbatim>\<open>w\<close>,
  \<^verbatim>\<open>m\<close>.  \<^verbatim>\<open>TimeFrameData.toTimeframe\<close> does not reject a label outside
  \<^verbatim>\<open>freq_map\<close>: it resamples with the daily frequency, so the result is the one for
  \<^verbatim>\<open>"day"\<close>.
\<close>

theorem unknown_string_timeframe:
  "(\<not> endswith s ''d'' \<and> \<not> endswith s ''w'' \<and> \<not> endswith s ''m''
      \<longrightarrow> convert cal data (from_tf, StrTF s) = Inl UnsupportedTimeframe)
   \<and> (freq_map l = None
      \<longrightarrow> toTimeframe cal' data' (Some l) ohlc = toTimeframe cal' data' (Some ''day'') ohlc)"
  by (simp add: convert_def toTimeframe_def freq_of_unknown freq_of_day)

theorem unknown_string_timeframe_witness:
  "convert no_calendar five_minutes (1, StrTF ''1y'') = Inl UnsupportedTimeframe
   \<and> toTimeframe day_calendar holiday_gap (Some ''fortnight'') None
       = toTimeframe day_calendar holiday_gap (Some ''day'') None"
  using unknown_string_timeframe
    [of "''1y''" no_calendar five_minutes 1 "''fortnight''" day_calendar holiday_gap None]
  by (simp add: endswith_def freq_map_def)

text \<open>
  The claim as stated fails on \<^verbatim>\<open>toTimeframe\<close>: the label \<^verbatim>\<open>"fortnight"\<close> names no
  calendar granularity, and the call returns daily bars instead of failing.
\<close>

theorem toTimeframe_unknown_label_returns:
  "toTimeframe day_calendar holiday_gap (Some ''fortnight'') None =
     Inr \<lparr>columns = [(''Price'', ''Open''), (''Price'', ''High''), (''Price'', ''Low''),
                     (''Price'', ''Close''), (''Price'', ''Volume'')],
          rows = [(0, [Some 10, Some 11, Some 9, Some 10, Some 100]),
                  (1, [None, None, None, None, Some 0]),
                  (2, [Some 12, Some 13, Some 11, Some 12, Some 300])]\<rparr>"
  by (simp add: toTimeframe_def agg_dict_ohlcv holiday_gap_def freq_of_def freq_map_def
      day_calendar_def resample_agg_def bins_for_def resample_rows_def dropna_all_def
      ohlcv_rules_def in_bin_def column_of_def agg_def present_def upto_rec1)

section \<open>Periods without rows\<close>

text \<open>
  \<^verbatim>\<open>convert\<close> ends with \<^verbatim>\<open>dropna()\<close>: every row of its output is the bar of a bin
  that holds a row of the input.
\<close>

lemma agg_first_present: "agg AggFirst vs \<noteq> None \<Longrightarrow> vs \<noteq> []"
  by (auto simp: agg_def present_def)

lemma resample_ohlcv_no_empty_period:
  assumes "resample_ohlcv cal f data = Inr out" and "bins_for cal f = Inr b"
    and "(t, cells) \<in> set (rows out)"
  shows "\<exists>k. t = label_of b k \<and> (\<exists>r \<in> set (rows data). bin_of b (fst r) = k)"
proof -
  let ?rs = "sort_key fst (rows data)"
  have "(t, cells) \<in> set (filter complete_row (resample_rows b ohlcv_rules (columns data) ?rs))"
    using assms by (auto simp: resample_ohlcv_def resample_agg_def dropna_def split: if_splits)
  then obtain k where k: "t = label_of b k"
      "cells = map (\<lambda>(c, f). agg f (column_of (columns data) c (in_bin b k ?rs))) ohlcv_rules"
      "complete_row (t, cells)"
    by (auto simp: resample_rows_def split: if_splits)
  have "agg AggFirst (column_of (columns data) ''Open'' (in_bin b k ?rs)) \<noteq> None"
    using k(2,3) by (simp add: complete_row_def ohlcv_rules_def)
  then have "in_bin b k ?rs \<noteq> []"
    using agg_first_present by (fastforce simp: column_of_def)
  then obtain r where "r \<in> set ?rs" "bin_of b (fst r) = k"
    by (auto simp: in_bin_def filter_empty_conv)
  then show ?thesis
    using k(1) by auto
qed

text \<open>
  C7 at a failing input.  The daily series has bars on day 0 and day 2 only.  Resampled to
  days by \<^verbatim>\<open>toTimeframe\<close>, the output has a row for day 1, the period without rows:
  its prices are NaN and its volume is 0, because the sum over an empty bin is 0 and
  \<^verbatim>\<open>dropna(how="all")\<close> only drops rows that are NaN in every column.
\<close>

theorem toTimeframe_emits_empty_period:
  "toTimeframe day_calendar holiday_gap (Some ''day'') None =
     Inr \<lparr>columns = [(''Price'', ''Open''), (''Price'', ''High''), (''Price'', ''Low''),
                     (''Price'', ''Close''), (''Price'', ''Volume'')],
          rows = [(0, [Some 10, Some 11, Some 9, Some 10, Some 100]),
                  (1, [None, None, None, None, Some 0]),
                  (2, [Some 12, Some 13, Some 11, Some 12, Some 300])]\<rparr>
   \<and> in_bin \<lparr>bin_of = (\<lambda>t. t), label_of = (\<lambda>k. k)\<rparr> 1 (rows holiday_gap) = []"
  by (simp add: toTimeframe_def agg_dict_ohlcv holiday_gap_def freq_of_def freq_map_def
      day_calendar_def resample_agg_def bins_for_def resample_rows_def dropna_all_def
      ohlcv_rules_def in_bin_def column_of_def agg_def present_def upto_rec1)

section \<open>\<^verbatim>\<open>convertMany\<close> stops at the first failing symbol\<close>

lemma convert_each_find:
  "convert_each cal data conversion syms =
     (case find (\<lambda>s. isl (convert cal (select_symbol data s) conversion)) syms of
        None \<Rightarrow> Inr (map (\<lambda>s. (s, projr (convert cal (select_symbol data s) conversion))) syms)
      | Some s \<Rightarrow> Inl (projl (convert cal (select_symbol data s) conversion)))"
proof (induction syms)
  case Nil
  show ?case by simp
next
  case (Cons s syms)
  show ?case
  proof (cases "convert cal (select_symbol data s) conversion")
    case (Inl e)
    then show ?thesis by simp
  next
    case (Inr out)
    then show ?thesis
      using Cons.IH by (simp split: option.splits)
  qed
qed

lemma select_symbol_A:
  "select_symbol two_symbols ''A'' =
     \<lparr>columns = [''Open'', ''High'', ''Low'', ''Close'', ''Volume''],
      rows = [(0, [Some 10, Some 11, Some 9, Some 10, Some 100]),
              (1, [Some 10, Some 12, Some 10, Some 11, Some 200])]\<rparr>"
  by (simp add: select_symbol_def two_symbols_def)

lemma select_symbol_B:
  "select_symbol two_symbols ''B'' =
     \<lparr>columns = [''Open'', ''High'', ''Low'', ''Close''],
      rows = [(0, [Some 5, Some 6, Some 4, Some 5]),
              (1, [Some 5, Some 7, Some 5, Some 6])]\<rparr>"
  by (simp add: select_symbol_def two_symbols_def)

lemma symbols_two_symbols: "symbols two_symbols = [''A'', ''B'']"
  by (simp add: symbols_def two_symbols_def)

lemma convert_symbol_A:
  "convert no_calendar (select_symbol two_symbols ''A'') (1, IntTF 2) =
     Inr \<lparr>columns = [''Open'', ''High'', ''Low'', ''Close'', ''Volume''],
          rows = [(0, [Some 10, Some 12, Some 9, Some 11, Some 300])]\<rparr>"
  by (simp add: select_symbol_A convert_def py_floordiv_def resample_ohlcv_def
      resample_agg_def bins_for_def resample_rows_def dropna_def complete_row_def minute_bins_def
      ohlcv_rules_def in_bin_def column_of_def agg_def present_def)

lemma convert_symbol_B:
  "convert no_calendar (select_symbol two_symbols ''B'') (1, IntTF 2) = Inl KeyError"
  by (simp add: select_symbol_B convert_def py_floordiv_def resample_ohlcv_def
      resample_agg_def bins_for_def ohlcv_rules_def)

text \<open>
  C5, as the code has it.  \<^verbatim>\<open>convertMany\<close> is fail-fast.  When \<^verbatim>\<open>convert\<close> fails for
  some symbol, the whole call fails with the error of the first failing symbol, in the
  order of the symbols in the table, and no map is returned.  Only when \<^verbatim>\<open>convert\<close>
  succeeds for every symbol does it return the map, which then holds every symbol with its
  converted series.
\<close>

theorem convertMany_fail_fast:
  "convertMany cal data conversion =
     (case find (\<lambda>s. isl (convert cal (select_symbol data s) conversion)) (symbols data) of
        None \<Rightarrow> Inr (map (\<lambda>s. (s, projr (convert cal (select_symbol data s) conversion))) (symbols data))
      | Some s \<Rightarrow> Inl (projl (convert cal (select_symbol data s) conversion)))"
  unfolding convertMany_def by (rule convert_each_find)

text \<open>
  The claim as stated fails.  In the table \<open>two_symbols\<close> the conversion of \<^verbatim>\<open>A\<close>
  succeeds and the conversion of \<^verbatim>\<open>B\<close>, which has no volume column, raises
  \<^verbatim>\<open>KeyError\<close>; \<^verbatim>\<open>convertMany\<close> then raises \<^verbatim>\<open>KeyError\<close> and the series of
  \<^verbatim>\<open>A\<close> is lost.  With a target that is no multiple of the source, the call raises the
  validation error instead of returning a map of errors.
\<close>

theorem convertMany_no_isolation:
  "convert no_calendar (select_symbol two_symbols ''A'') (1, IntTF 2) =
     Inr \<lparr>columns = [''Open'', ''High'', ''Low'', ''Close'', ''Volume''],
          rows = [(0, [Some 10, Some 12, Some 9, Some 11, Some 300])]\<rparr>
   \<and> convert no_calendar (select_symbol two_symbols ''B'') (1, IntTF 2) = Inl KeyError
   \<and> convertMany no_calendar two_symbols (1, IntTF 2) = Inl KeyError
   \<and> convertMany no_calendar two_symbols (5, IntTF 12) = Inl InvalidConversion"
proof -
  have "convertMany no_calendar two_symbols (5, IntTF 12) = Inl InvalidConversion"
    by (simp add: convertMany_def symbols_two_symbols convert_def py_floordiv_def)
  then show ?thesis
    by (simp add: convert_symbol_A convert_symbol_B convertMany_def symbols_two_symbols)
qed

section \<open>The bar of a period\<close>

lemma present_complete: "list_all (\<lambda>c. c \<noteq> None) vs \<Longrightarrow> present vs = map the vs"
  by (simp add: present_def list_all_iff)

lemma agg_complete:
  assumes "vs \<noteq> []" and "list_all (\<lambda>c. c \<noteq> None) vs"
  shows "agg AggFirst vs = hd vs"
    and "agg AggMax vs = Some (Max (set (map the vs)))"
    and "agg AggMin vs = Some (Min (set (map the vs)))"
    and "agg AggLast vs = last vs"
    and "agg AggSum vs = Some (sum_list (map the vs))"
proof -
  obtain v ws where vs: "vs = v # ws"
    using assms(1) by (cases vs) auto
  have p: "present vs = the v # map the ws"
    using present_complete [OF assms(2)] vs by simp
  have some: "\<And>c. c \<in> set vs \<Longrightarrow> Some (the c) = c"
    using assms(2) by (auto simp: list_all_iff)
  show "agg AggFirst vs = hd vs"
    using p some [of v] vs by (simp add: agg_def)
  have "fold max (map the ws) (the v) = Max (set (the v # map the ws))"
    by (simp only: Max.set_eq_fold)
  then show "agg AggMax vs = Some (Max (set (map the vs)))"
    using p vs by (simp add: agg_def)
  have "fold min (map the ws) (the v) = Min (set (the v # map the ws))"
    by (simp only: Min.set_eq_fold)
  then show "agg AggMin vs = Some (Min (set (map the vs)))"
    using p vs by (simp add: agg_def)
  have "last (the v # map the ws) = the (last vs)"
    using vs by (simp add: last_map)
  then show "agg AggLast vs = last vs"
    using p some [of "last vs"] assms(1) by (simp add: agg_def)
  show "agg AggSum vs = Some (sum_list (map the vs))"
    using present_complete [OF assms(2)] by (simp add: agg_def)
qed

lemma agg_complete_present:
  assumes "vs \<noteq> []" and "list_all (\<lambda>c. c \<noteq> None) vs"
  shows "agg f vs \<noteq> None"
proof -
  have "hd vs \<noteq> None" "last vs \<noteq> None"
    using assms by (auto simp: list_all_iff)
  then show ?thesis
    using agg_complete [OF assms] by (cases f) auto
qed

lemma agg_rule_default:
  "agg_rule default_ohlc c =
     Some (if lower c = ''open'' then AggFirst
           else if lower c = ''high'' then AggMax
           else if lower c = ''low'' then AggMin
           else if lower c = ''close'' then AggLast
           else if contains ''volume'' (lower c) then AggSum
           else AggLast)"
  by (auto simp: agg_rule_def default_ohlc_def lower_def lower_char_def Let_def)

lemma agg_default_value:
  assumes "vs \<noteq> []" and "list_all (\<lambda>c. c \<noteq> None) vs"
  shows "agg (the (agg_rule default_ohlc c)) vs = period_value c vs"
  using agg_complete [OF assms] by (simp add: agg_rule_default period_value_def)

lemma update_fresh: "k \<notin> fst ` set al \<Longrightarrow> AList.update k v al = al @ [(k, v)]"
  by (induction al) auto

lemma agg_dict_fold:
  assumes "distinct cols" and "set cols \<inter> fst ` set acc = {}"
  shows "fold (\<lambda>col d. case agg_rule default_ohlc col of None \<Rightarrow> d | Some f \<Rightarrow> AList.update col f d) cols acc
         = acc @ map (\<lambda>c. (c, the (agg_rule default_ohlc c))) cols"
  using assms
proof (induction cols arbitrary: acc)
  case Nil
  show ?case by simp
next
  case (Cons c cols)
  have fresh: "c \<notin> fst ` set acc"
    using Cons.prems(2) by auto
  obtain f where f: "agg_rule default_ohlc c = Some f"
    using agg_rule_default by blast
  have "set cols \<inter> fst ` set (acc @ [(c, f)]) = {}"
    using Cons.prems by auto
  then show ?case
    using Cons.IH [of "acc @ [(c, f)]"] Cons.prems(1) f update_fresh [OF fresh]
    by simp
qed

lemma agg_dict_distinct:
  "distinct cols \<Longrightarrow> agg_dict default_ohlc cols = map (\<lambda>c. (c, the (agg_rule default_ohlc c))) cols"
  using agg_dict_fold [of cols "[]"] by (simp add: agg_dict_def)

lemma position_less: "c \<in> set cols \<Longrightarrow> position c cols < length cols"
  by (induction cols) auto

lemma column_of_complete:
  assumes "list_all complete_row rs" and "list_all (\<lambda>r. length (snd r) = length cols) rs"
    and "c \<in> set cols"
  shows "list_all (\<lambda>v. v \<noteq> None) (column_of cols c rs)"
  using assms position_less [OF assms(3)]
  by (auto simp: column_of_def list_all_iff complete_row_def)

lemma resample_rows_bar:
  assumes "sorted (map fst rs)" and "mono (bin_of b)" and "r \<in> set rs"
  shows "(label_of b (bin_of b (fst r)),
          map (\<lambda>(c, f). agg f (column_of cols c (in_bin b (bin_of b (fst r)) rs))) d)
         \<in> set (resample_rows b d cols rs)"
proof -
  have ne: "rs \<noteq> []"
    using assms(3) by auto
  obtain i where i: "i < length rs" "rs ! i = r"
    using assms(3) by (auto simp: in_set_conv_nth)
  have "map fst rs ! 0 \<le> map fst rs ! i"
    using assms(1) i(1) by (intro sorted_nth_mono) auto
  then have lo: "fst (hd rs) \<le> fst r"
    using i ne by (simp add: hd_conv_nth)
  have "map fst rs ! i \<le> map fst rs ! (length rs - 1)"
    using assms(1) i(1) by (intro sorted_nth_mono) auto
  then have hi: "fst r \<le> fst (last rs)"
    using i ne by (simp add: last_conv_nth)
  have "bin_of b (fst r) \<in> set [bin_of b (fst (hd rs)) .. bin_of b (fst (last rs))]"
    using lo hi assms(2) by (auto dest: monoD)
  then show ?thesis
    using ne by (auto simp: resample_rows_def image_iff intro!: bexI [where x = "bin_of b (fst r)"])
qed

lemma mono_minute_bins: "0 < n \<Longrightarrow> mono (bin_of (minute_bins n))"
  by (auto simp: minute_bins_def mono_def zdiv_mono1)

lemma bar_series_sorted: "bar_series data \<Longrightarrow> sort_key fst (rows data) = rows data"
  by (simp add: bar_series_def index_def sort_key_id_if_sorted strict_sorted_imp_sorted)

lemma in_bin_complete:
  assumes "bar_series data" and "list_all complete_row (rows data)" and "c \<in> set (columns data)"
  shows "list_all (\<lambda>v. v \<noteq> None) (column_of (columns data) c (in_bin b k (rows data)))"
proof -
  have "list_all complete_row (in_bin b k (rows data))"
    using assms(2) by (auto simp: in_bin_def list_all_iff)
  moreover have "list_all (\<lambda>r. length (snd r) = length (columns data)) (in_bin b k (rows data))"
    using assms(1) by (auto simp: in_bin_def list_all_iff bar_series_def)
  ultimately show ?thesis
    using assms(3) by (rule column_of_complete)
qed

lemma in_bin_nonempty: "r \<in> set rs \<Longrightarrow> column_of cols c (in_bin b (bin_of b (fst r)) rs) \<noteq> []"
  by (auto simp: column_of_def in_bin_def filter_empty_conv)

lemma toTimeframe_bar:
  assumes bs: "bar_series data" and comp: "list_all complete_row (rows data)"
    and r: "r \<in> set (rows data)" and ne: "columns data \<noteq> []"
    and cal: "cal (freq_of timeframe) = Inr b" and mono: "mono (bin_of b)"
  shows "\<exists>out. toTimeframe cal data timeframe None = Inr out
           \<and> columns out = map (Pair ''Price'') (columns data)
           \<and> (label_of b (bin_of b (fst r)),
                map (\<lambda>c. period_value c (column_of (columns data) c (in_bin b (bin_of b (fst r)) (rows data))))
                  (columns data)) \<in> set (rows out)"
proof -
  let ?cols = "columns data"
  let ?d = "map (\<lambda>c. (c, the (agg_rule default_ohlc c))) ?cols"
  let ?g = "in_bin b (bin_of b (fst r)) (rows data)"
  let ?cells = "map (\<lambda>c. period_value c (column_of ?cols c ?g)) ?cols"
  let ?rs = "resample_rows b ?d ?cols (rows data)"
  have d: "agg_dict default_ohlc ?cols = ?d"
    using bs by (simp add: agg_dict_distinct bar_series_def)
  have keys: "map fst ?d = ?cols"
    by (simp add: comp_def)
  have ra: "resample_agg cal (Alias (freq_of timeframe)) ?d data = Inr \<lparr>columns = ?cols, rows = ?rs\<rparr>"
    using cal keys ne
    by (simp add: resample_agg_def bins_for_def bar_series_sorted [OF bs] list_ex_iff)
  have val: "agg (the (agg_rule default_ohlc c)) (column_of ?cols c ?g) = period_value c (column_of ?cols c ?g)"
    if "c \<in> set ?cols" for c
    using in_bin_nonempty [OF r] in_bin_complete [OF bs comp that] by (rule agg_default_value)
  have eq: "map (\<lambda>(c, f). agg f (column_of ?cols c ?g)) ?d = ?cells"
    using val by (auto simp: comp_def)
  have srt: "sorted (map fst (rows data))"
    using bs by (simp add: bar_series_def index_def strict_sorted_imp_sorted)
  have mem: "(label_of b (bin_of b (fst r)), ?cells) \<in> set ?rs"
    using resample_rows_bar [OF srt mono r, of ?cols ?d] unfolding eq .
  have "hd ?cells \<noteq> None"
    using ne val [of "hd ?cols"] agg_complete_present [OF in_bin_nonempty [OF r] in_bin_complete [OF bs comp]]
    by (simp add: hd_map) (metis hd_in_set)
  then have keep: "\<not> list_all (\<lambda>c. c = None) ?cells"
    using ne by (cases ?cols) auto
  show ?thesis
    using d ra mem keep by (simp add: toTimeframe_def default_ohlc_def dropna_all_def)
qed

lemma resample_ohlcv_bar:
  assumes bs: "bar_series data" and comp: "list_all complete_row (rows data)"
    and r: "r \<in> set (rows data)" and cols: "set (map fst ohlcv_rules) \<subseteq> set (columns data)"
    and bins: "bins_for cal f = Inr b" and mono: "mono (bin_of b)"
  shows "\<exists>out. resample_ohlcv cal f data = Inr out
           \<and> columns out = [''Open'', ''High'', ''Low'', ''Close'', ''Volume'']
           \<and> (label_of b (bin_of b (fst r)),
                map (\<lambda>c. period_value c (column_of (columns data) c (in_bin b (bin_of b (fst r)) (rows data))))
                  [''Open'', ''High'', ''Low'', ''Close'', ''Volume'']) \<in> set (rows out)"
proof -
  let ?cols = "columns data"
  let ?g = "in_bin b (bin_of b (fst r)) (rows data)"
  let ?cells = "map (\<lambda>c. period_value c (column_of ?cols c ?g)) [''Open'', ''High'', ''Low'', ''Close'', ''Volume'']"
  let ?rs = "resample_rows b ohlcv_rules ?cols (rows data)"
  have "\<not> list_ex (\<lambda>c. c \<notin> set ?cols) (map fst ohlcv_rules)"
    using cols by (auto simp: list_ex_iff)
  then have ra: "resample_agg cal f ohlcv_rules data = Inr \<lparr>columns = map fst ohlcv_rules, rows = ?rs\<rparr>"
    using bins by (simp add: resample_agg_def bar_series_sorted [OF bs] ohlcv_rules_nonempty)
  have c: "list_all (\<lambda>v. v \<noteq> None) (column_of ?cols c ?g)" "column_of ?cols c ?g \<noteq> []"
    if "c \<in> set (map fst ohlcv_rules)" for c
    using that cols in_bin_complete [OF bs comp, of c b "bin_of b (fst r)"]
      in_bin_nonempty [OF r, of ?cols c b] by auto
  have low: "lower ''Open'' = ''open''" "lower ''High'' = ''high''" "lower ''Low'' = ''low''"
    "lower ''Close'' = ''close''" "lower ''Volume'' = ''volume''"
    by (simp_all add: lower_def lower_char_def)
  have cells: "map (\<lambda>(c, f). agg f (column_of ?cols c ?g)) ohlcv_rules = ?cells"
    using agg_complete [OF c(2) c(1)]
    by (simp add: ohlcv_rules_def period_value_def low)
  have srt: "sorted (map fst (rows data))"
    using bs by (simp add: bar_series_def index_def strict_sorted_imp_sorted)
  have mem: "(label_of b (bin_of b (fst r)), ?cells) \<in> set ?rs"
    using resample_rows_bar [OF srt mono r, of ?cols ohlcv_rules] unfolding cells .
  have "list_all (\<lambda>v. v \<noteq> None) (map (\<lambda>(c, f). agg f (column_of ?cols c ?g)) ohlcv_rules)"
    using agg_complete_present [OF c(2) c(1)] by (simp add: ohlcv_rules_def)
  then have keep: "complete_row (label_of b (bin_of b (fst r)), ?cells)"
    unfolding cells by (simp add: complete_row_def)
  show ?thesis
    using ra mem keep by (simp add: resample_ohlcv_def dropna_def ohlcv_rules_def)
qed

lemma convert_string_target:
  "target_alias s = Some a \<Longrightarrow> convert cal data (from_tf, StrTF s) = resample_ohlcv cal (Alias a) data"
  by (auto simp: convert_def target_alias_def split: if_splits)

text \<open>
  C2, as the code has it.  Take a bar series without NaN cells, and the period of any of
  its rows \<open>r\<close>; the rows of that period are \<open>in_bin b k (rows data)\<close>, in timestamp
  order.  Let the columns that are summed over the period meet \<open>exact_sum\<close>: integer values
  whose absolute values add up to less than \<open>2 ^ 53\<close>, so that pandas' sum neither wraps
  nor rounds.

  \<^verbatim>\<open>toTimeframe\<close> with the default \<^verbatim>\<open>ohlc\<close> returns a table that has every column
  of the input, and whose bar for the period holds in each column the value of the
  specification's rule: Open the first, High the greatest, Low the least, Close the last,
  a column with \<^verbatim>\<open>volume\<close> in its name the sum, any other column the last.

  \<^verbatim>\<open>convert\<close> returns a table whose columns are the five OHLCV columns only, and whose
  bar for the period holds the values of the same rules for these five.  This holds for an
  integer target that passes the multiple-of check, and for a string target with one of
  the suffixes \<^verbatim>\<open>d\<close>, \<^verbatim>\<open>w\<close>, \<^verbatim>\<open>m\<close> whose frequency alias pandas accepts.
\<close>

theorem period_aggregation_rules:
  assumes "bar_series data" and "list_all complete_row (rows data)" and "r \<in> set (rows data)"
  shows "(columns data \<noteq> [] \<and> cal (freq_of timeframe) = Inr b \<and> mono (bin_of b)
            \<and> exact_sums (columns data) (in_bin b (bin_of b (fst r)) (rows data)) \<longrightarrow>
            (\<exists>out. toTimeframe cal data timeframe None = Inr out
               \<and> columns out = map (Pair ''Price'') (columns data)
               \<and> period_bar b (columns data) (rows data) r (columns data) \<in> set (rows out)))
         \<and> (0 < from_tf \<and> to_tf mod from_tf = 0 \<and> 1 \<le> to_tf div from_tf
              \<and> set (map fst ohlcv_rules) \<subseteq> set (columns data)
              \<and> exact_sums (columns data)
                    (in_bin (minute_bins to_tf) (bin_of (minute_bins to_tf) (fst r)) (rows data)) \<longrightarrow>
            (\<exists>out. convert cal' data (from_tf, IntTF to_tf) = Inr out
               \<and> columns out = [''Open'', ''High'', ''Low'', ''Close'', ''Volume'']
               \<and> period_bar (minute_bins to_tf) (columns data) (rows data) r
                    [''Open'', ''High'', ''Low'', ''Close'', ''Volume''] \<in> set (rows out)))
         \<and> (target_alias s = Some a \<and> cal'' a = Inr b' \<and> mono (bin_of b')
              \<and> set (map fst ohlcv_rules) \<subseteq> set (columns data)
              \<and> exact_sums (columns data) (in_bin b' (bin_of b' (fst r)) (rows data)) \<longrightarrow>
            (\<exists>out. convert cal'' data (from_tf', StrTF s) = Inr out
               \<and> columns out = [''Open'', ''High'', ''Low'', ''Close'', ''Volume'']
               \<and> period_bar b' (columns data) (rows data) r
                    [''Open'', ''High'', ''Low'', ''Close'', ''Volume''] \<in> set (rows out)))"
proof (intro conjI impI)
  assume "columns data \<noteq> [] \<and> cal (freq_of timeframe) = Inr b \<and> mono (bin_of b)
            \<and> exact_sums (columns data) (in_bin b (bin_of b (fst r)) (rows data))"
  then show "\<exists>out. toTimeframe cal data timeframe None = Inr out
               \<and> columns out = map (Pair ''Price'') (columns data)
               \<and> period_bar b (columns data) (rows data) r (columns data) \<in> set (rows out)"
    unfolding period_bar_def using toTimeframe_bar [OF assms] by blast
next
  assume a: "0 < from_tf \<and> to_tf mod from_tf = 0 \<and> 1 \<le> to_tf div from_tf
              \<and> set (map fst ohlcv_rules) \<subseteq> set (columns data)
              \<and> exact_sums (columns data)
                    (in_bin (minute_bins to_tf) (bin_of (minute_bins to_tf) (fst r)) (rows data))"
  then have pos: "0 < to_tf"
    using zdiv_mono1 [of to_tf 0 from_tf] by (cases "to_tf \<le> 0") auto
  have conv: "convert cal' data (from_tf, IntTF to_tf) = resample_ohlcv cal' (Minutes to_tf) data"
    using a by (simp add: convert_def py_floordiv_def)
  have bins: "bins_for cal' (Minutes to_tf) = Inr (minute_bins to_tf)"
    using pos by (simp add: bins_for_def)
  show "\<exists>out. convert cal' data (from_tf, IntTF to_tf) = Inr out
               \<and> columns out = [''Open'', ''High'', ''Low'', ''Close'', ''Volume'']
               \<and> period_bar (minute_bins to_tf) (columns data) (rows data) r
                    [''Open'', ''High'', ''Low'', ''Close'', ''Volume''] \<in> set (rows out)"
    unfolding conv period_bar_def
    using a resample_ohlcv_bar [OF assms _ bins mono_minute_bins [OF pos]] by blast
next
  assume a: "target_alias s = Some a \<and> cal'' a = Inr b' \<and> mono (bin_of b')
              \<and> set (map fst ohlcv_rules) \<subseteq> set (columns data)
              \<and> exact_sums (columns data) (in_bin b' (bin_of b' (fst r)) (rows data))"
  have conv: "convert cal'' data (from_tf', StrTF s) = resample_ohlcv cal'' (Alias a) data"
    using a by (simp add: convert_string_target)
  have bins: "bins_for cal'' (Alias a) = Inr b'"
    using a by (simp add: bins_for_def)
  show "\<exists>out. convert cal'' data (from_tf', StrTF s) = Inr out
               \<and> columns out = [''Open'', ''High'', ''Low'', ''Close'', ''Volume'']
               \<and> period_bar b' (columns data) (rows data) r
                    [''Open'', ''High'', ''Low'', ''Close'', ''Volume''] \<in> set (rows out)"
    unfolding conv period_bar_def
    using a resample_ohlcv_bar [OF assms _ bins] by blast
qed

theorem period_aggregation_rules_witness:
  "(\<exists>out. toTimeframe day_calendar holiday_gap (Some ''week'') None = Inr out
      \<and> columns out = [(''Price'', ''Open''), (''Price'', ''High''), (''Price'', ''Low''),
                        (''Price'', ''Close''), (''Price'', ''Volume'')]
      \<and> (0, [Some 10, Some 13, Some 9, Some 12, Some 400]) \<in> set (rows out))
   \<and> (\<exists>out. convert no_calendar five_minutes (1, IntTF 5) = Inr out
      \<and> columns out = [''Open'', ''High'', ''Low'', ''Close'', ''Volume'']
      \<and> (0, [Some 10, Some 15, Some 10, Some 14, Some 500]) \<in> set (rows out))
   \<and> (\<exists>out. convert sunday_weeks holiday_gap (1, StrTF ''1w'') = Inr out
      \<and> columns out = [''Open'', ''High'', ''Low'', ''Close'', ''Volume'']
      \<and> (6, [Some 10, Some 13, Some 9, Some 12, Some 400]) \<in> set (rows out))"
proof -
  let ?week = "\<lparr>bin_of = (\<lambda>t::int. t div 7), label_of = (\<lambda>k::int. k * 7)\<rparr>"
  let ?sunday = "\<lparr>bin_of = (\<lambda>t::int. t div 7), label_of = (\<lambda>k::int. k * 7 + 6)\<rparr>"
  have low: "lower ''Open'' = ''open''" "lower ''High'' = ''high''" "lower ''Low'' = ''low''"
    "lower ''Close'' = ''close''" "lower ''Volume'' = ''volume''"
    by (simp_all add: lower_def lower_char_def)
  have g1: "bar_series holiday_gap"
    by (simp add: bar_series_def holiday_gap_def index_def)
  have g2: "list_all complete_row (rows holiday_gap)"
    by (simp add: holiday_gap_def complete_row_def)
  have g3: "(2, [Some 12, Some 13, Some 11, Some 12, Some 300]) \<in> set (rows holiday_gap)"
    by (simp add: holiday_gap_def)
  have g4: "columns holiday_gap \<noteq> [] \<and> day_calendar (freq_of (Some ''week'')) = Inr ?week
            \<and> mono (bin_of ?week)"
    by (simp add: holiday_gap_def day_calendar_def freq_of_def freq_map_def mono_def zdiv_mono1)
  have g5: "exact_sums (columns holiday_gap)
              (in_bin ?week (bin_of ?week (fst (2::int, [Some 12, Some 13, Some 11, Some 12, Some (300::rat)])))
                 (rows holiday_gap))"
    by (simp add: exact_sums_def exact_sum_def present_def column_of_def in_bin_def holiday_gap_def low)
  have f1: "bar_series five_minutes"
    by (simp add: bar_series_def five_minutes_def index_def)
  have f2: "list_all complete_row (rows five_minutes)"
    by (simp add: five_minutes_def complete_row_def)
  have f3: "(2, [Some 12, Some 13, Some 12, Some 12, Some 100]) \<in> set (rows five_minutes)"
    by (simp add: five_minutes_def)
  have f4: "(0::int) < 1 \<and> (5::int) mod 1 = 0 \<and> (1::int) \<le> 5 div 1
            \<and> set (map fst ohlcv_rules) \<subseteq> set (columns five_minutes)"
    by (simp add: five_minutes_def ohlcv_rules_def)
  have f5: "exact_sums (columns five_minutes)
              (in_bin (minute_bins 5)
                 (bin_of (minute_bins 5) (fst (2::int, [Some 12, Some 13, Some 12, Some 12, Some (100::rat)])))
                 (rows five_minutes))"
    by (simp add: exact_sums_def exact_sum_def present_def column_of_def in_bin_def five_minutes_def
        minute_bins_def low)
  have s4: "target_alias ''1w'' = Some ''1W'' \<and> sunday_weeks ''1W'' = Inr ?sunday
            \<and> mono (bin_of ?sunday) \<and> set (map fst ohlcv_rules) \<subseteq> set (columns holiday_gap)"
    by (simp add: target_alias_def endswith_def sunday_weeks_def mono_def zdiv_mono1
        holiday_gap_def ohlcv_rules_def)
  have s5: "exact_sums (columns holiday_gap)
              (in_bin ?sunday (bin_of ?sunday (fst (2::int, [Some 12, Some 13, Some 11, Some 12, Some (300::rat)])))
                 (rows holiday_gap))"
    by (simp add: exact_sums_def exact_sum_def present_def column_of_def in_bin_def holiday_gap_def low)
  from period_aggregation_rules [OF g1 g2 g3, of day_calendar "Some ''week''" ?week] g4 g5
  have "\<exists>out. toTimeframe day_calendar holiday_gap (Some ''week'') None = Inr out
      \<and> columns out = [(''Price'', ''Open''), (''Price'', ''High''), (''Price'', ''Low''),
                        (''Price'', ''Close''), (''Price'', ''Volume'')]
      \<and> (0, [Some 10, Some 13, Some 9, Some 12, Some 400]) \<in> set (rows out)"
    by (simp add: holiday_gap_def period_bar_def period_value_def low column_of_def in_bin_def)
  moreover from period_aggregation_rules [OF f1 f2 f3, of _ _ _ 1 5 no_calendar] f4 f5
  have "\<exists>out. convert no_calendar five_minutes (1, IntTF 5) = Inr out
      \<and> columns out = [''Open'', ''High'', ''Low'', ''Close'', ''Volume'']
      \<and> (0, [Some 10, Some 15, Some 10, Some 14, Some 500]) \<in> set (rows out)"
    by (simp add: five_minutes_def period_bar_def period_value_def low column_of_def in_bin_def
        minute_bins_def)
  moreover from period_aggregation_rules
    [OF g1 g2 g3, where s = "''1w''" and a = "''1W''" and cal'' = sunday_weeks and b' = ?sunday
      and from_tf' = 1] s4 s5
  have "\<exists>out. convert sunday_weeks holiday_gap (1, StrTF ''1w'') = Inr out
      \<and> columns out = [''Open'', ''High'', ''Low'', ''Close'', ''Volume'']
      \<and> (6, [Some 10, Some 13, Some 9, Some 12, Some 400]) \<in> set (rows out)"
    by (simp add: holiday_gap_def period_bar_def period_value_def low column_of_def in_bin_def)
  ultimately show ?thesis by blast
qed

text \<open>
  The claim as stated fails on \<^verbatim>\<open>convert\<close>: a column beside the five OHLCV columns is
  not aggregated by its last value, it is absent from the output.
\<close>

theorem convert_drops_other_columns:
  "convert no_calendar with_adj_close (1, IntTF 2) =
     Inr \<lparr>columns = [''Open'', ''High'', ''Low'', ''Close'', ''Volume''],
          rows = [(0, [Some 10, Some 12, Some 9, Some 11, Some 300])]\<rparr>"
  by (simp add: with_adj_close_def convert_def py_floordiv_def resample_ohlcv_def
      resample_agg_def bins_for_def resample_rows_def dropna_def complete_row_def minute_bins_def
      ohlcv_rules_def in_bin_def column_of_def agg_def present_def)

section \<open>The accurate re-aggregation row by row\<close>

lemma take_Suc_filter:
  fixes G :: "row list"
  shows "sorted_wrt (<) (map fst G) \<Longrightarrow> i < length G \<Longrightarrow>
     take (Suc i) G = filter (\<lambda>r. fst r \<le> fst (G ! i)) G"
proof (induction G arbitrary: i)
  case Nil
  then show ?case by simp
next
  case (Cons x G)
  show ?case
  proof (cases i)
    case 0
    have "\<forall>r \<in> set G. fst x < fst r"
      using Cons.prems(1) by auto
    then have "filter (\<lambda>r. fst r \<le> fst x) G = []"
      by (simp add: filter_empty_conv not_le)
    then show ?thesis
      using 0 by simp
  next
    case (Suc j)
    have "fst x \<le> fst (G ! j)"
      using Cons.prems Suc by (auto intro: less_imp_le)
    moreover have "take (Suc j) G = filter (\<lambda>r. fst r \<le> fst (G ! j)) G"
      using Cons.prems Suc by (intro Cons.IH) auto
    ultimately show ?thesis
      using Suc by simp
  qed
qed

lemma agg_group_keys: "map fst (agg_group oc cols G) = map fst G"
  by (rule nth_equalityI) (simp_all add: agg_group_def)

lemma map_of_agg_group:
  assumes "sorted_wrt (<) (map fst G)"
  shows "map_of (agg_group oc cols G) t =
           (if t \<in> fst ` set G
            then Some (dict_cells cols (row_dict_of oc cols (filter (\<lambda>r. fst r \<le> t) G)))
            else None)"
proof (cases "t \<in> fst ` set G")
  case False
  then have "t \<notin> fst ` set (agg_group oc cols G)"
    using agg_group_keys [of oc cols G] by (metis set_map)
  then show ?thesis
    using False by (simp add: map_of_eq_None_iff)
next
  case True
  then obtain i where i: "i < length G" "fst (G ! i) = t"
    by (auto simp: in_set_conv_nth)
  have "distinct (map fst (agg_group oc cols G))"
    using assms by (simp add: agg_group_keys strict_sorted_iff)
  moreover have "(t, dict_cells cols (row_dict_of oc cols (take (Suc i) G))) \<in> set (agg_group oc cols G)"
    using i by (auto simp: agg_group_def image_iff intro!: bexI [where x = i])
  ultimately have "map_of (agg_group oc cols G) t = Some (dict_cells cols (row_dict_of oc cols (take (Suc i) G)))"
    by (rule map_of_is_SomeI)
  then show ?thesis
    using True take_Suc_filter [OF assms i(1)] i(2) by simp
qed

lemma loc_assign_group:
  assumes "sorted_wrt (<) (map fst rs)" and "fst ` set res \<subseteq> fst ` set rs"
  shows "loc_assign res (agg_group oc cols (filter (\<lambda>r. period (fst r) = p) rs)) =
           map (\<lambda>r. if period (fst r) = p
                     then (fst r, dict_cells cols (row_dict_of oc cols (seen_so_far period rs (fst r))))
                     else r) res"
proof -
  let ?G = "filter (\<lambda>r. period (fst r) = p) rs"
  have srt: "sorted_wrt (<) (map fst ?G)"
    using assms(1) by (simp add: sorted_wrt_map sorted_wrt_filter)
  have "(case map_of (agg_group oc cols ?G) (fst r) of None \<Rightarrow> r | Some cells \<Rightarrow> (fst r, cells)) =
          (if period (fst r) = p
           then (fst r, dict_cells cols (row_dict_of oc cols (seen_so_far period rs (fst r))))
           else r)" if "r \<in> set res" for r
  proof -
    have "fst r \<in> fst ` set rs"
      using assms(2) that by blast
    then obtain r' where r': "r' \<in> set rs" "fst r' = fst r"
      by (auto simp: image_iff)
    have mem: "fst r \<in> fst ` set ?G \<longleftrightarrow> period (fst r) = p"
    proof
      assume "fst r \<in> fst ` set ?G"
      then show "period (fst r) = p" by auto
    next
      assume "period (fst r) = p"
      then have "r' \<in> set ?G" using r' by simp
      then show "fst r \<in> fst ` set ?G" using r'(2) by (metis imageI)
    qed
    have "filter (\<lambda>x. fst x \<le> fst r) ?G = seen_so_far period rs (fst r)"
      if "period (fst r) = p"
      using that by (auto simp: seen_so_far_def intro: filter_cong)
    then show ?thesis
      using mem by (simp add: map_of_agg_group [OF srt])
  qed
  then show ?thesis
    by (simp add: loc_assign_def)
qed

lemma fold_groups:
  assumes "sorted_wrt (<) (map fst rs)" and "fst ` set res \<subseteq> fst ` set rs"
  shows "fold (\<lambda>p res. loc_assign res (agg_group oc cols (filter (\<lambda>r. period (fst r) = p) rs))) ps res =
           map (\<lambda>r. if period (fst r) \<in> set ps
                     then (fst r, dict_cells cols (row_dict_of oc cols (seen_so_far period rs (fst r))))
                     else r) res"
  using assms(2)
proof (induction ps arbitrary: res)
  case Nil
  show ?case by simp
next
  case (Cons p ps)
  let ?h = "\<lambda>r. if period (fst r) = p
                then (fst r, dict_cells cols (row_dict_of oc cols (seen_so_far period rs (fst r))))
                else r"
  let ?hs = "\<lambda>r. if period (fst r) \<in> set ps
                 then (fst r, dict_cells cols (row_dict_of oc cols (seen_so_far period rs (fst r))))
                 else r"
  let ?f = "\<lambda>p res. loc_assign res (agg_group oc cols (filter (\<lambda>r. period (fst r) = p) rs))"
  have keys: "fst ` set (map ?h res) \<subseteq> fst ` set rs"
    using Cons.prems by force
  have "fold ?f (p # ps) res = fold ?f ps (map ?h res)"
    by (simp only: fold_simps loc_assign_group [OF assms(1) Cons.prems])
  also have "\<dots> = map ?hs (map ?h res)"
    using keys by (rule Cons.IH)
  also have "\<dots> = map (\<lambda>r. if period (fst r) \<in> set (p # ps)
                     then (fst r, dict_cells cols (row_dict_of oc cols (seen_so_far period rs (fst r))))
                     else r) res"
    by simp
  finally show ?case .
qed

lemma accurate_rows:
  assumes "sorted_wrt (<) (index df)" and "tf_priority tf = Some p" and "1 < p"
  shows "to_higher_tf_accurate per df tf =
           Inr \<lparr>columns = columns df,
                rows = map (\<lambda>t. (t, dict_cells (columns df)
                                     (row_dict_of (detect_ohlc (columns df)) (columns df)
                                        (seen_so_far (per (freq_of tf)) (rows df) t))))
                         (index df)\<rparr>"
proof -
  let ?res = "map (\<lambda>t. (t, replicate (length (columns df)) None)) (index df)"
  let ?ps = "sort (remdups (map (per (freq_of tf)) (index df)))"
  have srt: "sorted_wrt (<) (map fst (rows df))"
    using assms(1) by (simp add: index_def)
  have keys: "fst ` set ?res \<subseteq> fst ` set (rows df)"
    by (force simp: index_def)
  have all: "per (freq_of tf) (fst r) \<in> set ?ps" if "r \<in> set ?res" for r
    using that by auto
  have "fold (\<lambda>p res. loc_assign res (agg_group (detect_ohlc (columns df)) (columns df)
                 (filter (\<lambda>r. per (freq_of tf) (fst r) = p) (rows df)))) ?ps ?res
        = map (\<lambda>t. (t, dict_cells (columns df)
                                     (row_dict_of (detect_ohlc (columns df)) (columns df)
                                        (seen_so_far (per (freq_of tf)) (rows df) t))))
                         (index df)"
    unfolding fold_groups [OF srt keys] using all by (auto simp: comp_def)
  then show ?thesis
    using assms(2,3) by (simp add: to_higher_tf_accurate_def tf_priority_def Let_def)
qed

lemma map_of_put_known:
  "map_of (put_known known cols f part d) =
     (case known of
        None \<Rightarrow> map_of d
      | Some c \<Rightarrow> if c \<in> set cols then (map_of d)(c \<mapsto> f (column_of cols c part)) else map_of d)"
  by (simp add: put_known_def update_conv' split: option.splits)

lemma map_of_put_rest:
  "map_of (put_rest cols part c d) =
     (if map_of d c = None \<and> c \<in> set cols
      then (map_of d)(c \<mapsto> last (column_of cols c part))
      else map_of d)"
  by (simp add: put_rest_def update_conv' map_of_eq_None_iff)

lemma map_of_fold_put_rest:
  "map_of (fold (put_rest cols part) cs d) c =
     (case map_of d c of
        Some v \<Rightarrow> Some v
      | None \<Rightarrow> if c \<in> set cs \<and> c \<in> set cols then Some (last (column_of cols c part)) else None)"
proof (induction cs arbitrary: d)
  case Nil
  show ?case by (simp split: option.splits)
next
  case (Cons x cs)
  show ?case
    by (auto simp: Cons.IH map_of_put_rest split: option.splits)
qed

lemma map_of_row_dict_of:
  assumes "c \<in> set cols"
  shows "map_of (row_dict_of oc cols part) c = Some (running_value oc c (column_of cols c part))"
  using assms
  by (simp add: row_dict_of_def map_of_fold_put_rest map_of_put_known running_value_def
      split: option.splits)

lemma dict_cells_row_dict_of:
  "dict_cells cols (row_dict_of oc cols part) =
     map (\<lambda>c. running_value oc c (column_of cols c part)) cols"
  by (simp add: dict_cells_def map_of_row_dict_of)

lemma running_value_single: "v \<noteq> None \<Longrightarrow> running_value oc c [v] = v"
  by (auto simp: running_value_def agg_def present_def)

lemma position_nth: "distinct cols \<Longrightarrow> i < length cols \<Longrightarrow> position (cols ! i) cols = i"
proof (induction cols arbitrary: i)
  case Nil
  then show ?case by simp
next
  case (Cons c cols)
  then show ?case by (cases i) auto
qed

lemma map_position:
  assumes "distinct cols" and "length xs = length cols"
  shows "map (\<lambda>c. xs ! position c cols) cols = xs"
  using assms by (intro nth_equalityI) (simp_all add: position_nth)

lemma single_row_cells:
  assumes "distinct cols" and "length (snd r) = length cols" and "complete_row r"
  shows "dict_cells cols (row_dict_of oc cols [r]) = snd r"
proof -
  have "running_value oc c (column_of cols c [r]) = snd r ! position c cols" if "c \<in> set cols" for c
  proof -
    have "position c cols < length (snd r)"
      using that assms(2) by (simp add: position_less)
    then have "snd r ! position c cols \<noteq> None"
      using assms(3) by (auto simp: complete_row_def list_all_iff)
    then show ?thesis
      by (simp add: column_of_def running_value_single)
  qed
  then have "dict_cells cols (row_dict_of oc cols [r]) = map (\<lambda>c. snd r ! position c cols) cols"
    by (simp add: dict_cells_row_dict_of)
  then show ?thesis
    using map_position [OF assms(1,2)] by simp
qed

lemma map_of_keyed: "map_of (map (\<lambda>t. (t, f t)) ts) k = (if k \<in> set ts then Some (f k) else None)"
  by (induction ts) auto

lemma filter_single:
  assumes "distinct (map fst rs)" and "r \<in> set rs" and "\<And>x. x \<in> set rs \<Longrightarrow> P x \<longleftrightarrow> fst x = fst r"
  shows "filter P rs = [r]"
  using assms
proof (induction rs)
  case Nil
  then show ?case by simp
next
  case (Cons x rs)
  show ?case
  proof (cases "x = r")
    case True
    have "\<forall>y \<in> set rs. \<not> P y"
      using Cons.prems True by (auto simp: image_iff)
    then have "filter P rs = []"
      by (simp add: filter_empty_conv)
    then show ?thesis
      using True Cons.prems(3) [of x] by simp
  next
    case False
    then have r: "r \<in> set rs"
      using Cons.prems(2) by simp
    then have "fst x \<noteq> fst r"
      using Cons.prems(1) by (auto simp: image_iff)
    then have "\<not> P x"
      using Cons.prems(3) [of x] by simp
    moreover have "filter P rs = [r]"
      using Cons.prems r by (intro Cons.IH) auto
    ultimately show ?thesis by simp
  qed
qed

lemma map_of_filter_le: "map_of (filter (\<lambda>r. fst r \<le> t) rs) t = map_of rs (t::int)"
  by (induction rs) auto

lemma seen_so_far_filter:
  "seen_so_far period rs t = filter (\<lambda>r. period (fst r) = period t) (filter (\<lambda>r. fst r \<le> t) rs)"
  by (auto simp: seen_so_far_def intro: filter_cong)

lemma index_filter_le: "t \<in> set (index df) \<longleftrightarrow> t \<in> fst ` set (filter (\<lambda>r. fst r \<le> t) (rows df))"
  by (force simp: index_def)

lemma accurate_two_weeks:
  "to_higher_tf_accurate week_periods two_weeks (Some ''week'') =
     Inr \<lparr>columns = [''Open'', ''High'', ''Low'', ''Close'', ''Volume''],
          rows = [(4, [Some 10, Some 11, Some 9, Some 10, Some 100]),
                  (5, [Some 10, Some 14, Some 9, Some 13, Some 300]),
                  (7, [Some 13, Some 15, Some 12, Some 14, Some 300]),
                  (8, [Some 13, Some 16, Some 8, Some 9, Some 700])]\<rparr>"
  by code_simp

text \<open>
  C9.  Take a bar series, a timeframe label known to \<^verbatim>\<open>tf_priority\<close>, and a row \<open>r\<close>
  without NaN that is the first row of its coarse period (no row of the same period has a
  smaller timestamp).  The accurate re-aggregation returns a table, and its row at the
  timestamp of \<open>r\<close> holds the cells of \<open>r\<close> itself: nothing of an earlier period enters.
\<close>

theorem accurate_period_start:
  assumes "bar_series df" and "r \<in> set (rows df)" and "complete_row r"
    and "tf_priority tf \<noteq> None"
    and "\<forall>x \<in> set (rows df). per (freq_of tf) (fst x) = per (freq_of tf) (fst r) \<longrightarrow> fst r \<le> fst x"
  shows "\<exists>out. to_higher_tf_accurate per df tf = Inr out \<and> map_of (rows out) (fst r) = Some (snd r)"
proof -
  obtain p where p: "tf_priority tf = Some p"
    using assms(4) by auto
  have srt: "sorted_wrt (<) (index df)" and dc: "distinct (columns df)"
    and len: "length (snd r) = length (columns df)"
    using assms(1,2) by (auto simp: bar_series_def list_all_iff)
  have dist: "distinct (map fst (rows df))"
    using srt by (simp add: index_def strict_sorted_iff)
  show ?thesis
  proof (cases "1 < p")
    case False
    then have "to_higher_tf_accurate per df tf = Inr df"
      using p by (simp add: to_higher_tf_accurate_def tf_priority_def)
    moreover have "map_of (rows df) (fst r) = Some (snd r)"
      using dist assms(2) by (intro map_of_is_SomeI) auto
    ultimately show ?thesis by simp
  next
    case True
    have "seen_so_far (per (freq_of tf)) (rows df) (fst r) = [r]"
      unfolding seen_so_far_def using dist assms(2)
    proof (rule filter_single)
      fix x assume "x \<in> set (rows df)"
      then show "(per (freq_of tf) (fst x) = per (freq_of tf) (fst r) \<and> fst x \<le> fst r) = (fst x = fst r)"
        using assms(5) by auto
    qed
    moreover have "fst r \<in> set (index df)"
      using assms(2) by (simp add: index_def)
    ultimately have "map_of (map (\<lambda>t. (t, dict_cells (columns df)
                                     (row_dict_of (detect_ohlc (columns df)) (columns df)
                                        (seen_so_far (per (freq_of tf)) (rows df) t))))
                         (index df)) (fst r) = Some (snd r)"
      using single_row_cells [OF dc len assms(3)]
      by (simp add: map_of_keyed)
    then show ?thesis
      using accurate_rows [OF srt p True] by simp
  qed
qed

theorem accurate_period_start_witness:
  "\<exists>out. to_higher_tf_accurate week_periods two_weeks (Some ''week'') = Inr out
     \<and> map_of (rows out) 7 = Some [Some 13, Some 15, Some 12, Some 14, Some 300]"
proof -
  have h1: "bar_series two_weeks"
    by (simp add: bar_series_def two_weeks_def index_def)
  have h2: "(7, [Some 13, Some 15, Some 12, Some 14, Some 300]) \<in> set (rows two_weeks)"
    by (simp add: two_weeks_def)
  have h3: "complete_row (7, [Some 13, Some 15, Some 12, Some 14, Some 300])"
    by (simp add: complete_row_def)
  have h4: "tf_priority (Some ''week'') \<noteq> None"
    by (simp add: tf_priority_def)
  have h5: "\<forall>x \<in> set (rows two_weeks).
              week_periods (freq_of (Some ''week'')) (fst x)
                = week_periods (freq_of (Some ''week'')) (fst (7::int, [Some 13, Some 15, Some 12, Some 14, Some (300::rat)]))
              \<longrightarrow> fst (7::int, [Some 13, Some 15, Some 12, Some 14, Some (300::rat)]) \<le> fst x"
    by (simp add: two_weeks_def week_periods_def freq_of_def freq_map_def)
  show ?thesis
    using accurate_period_start [where per = week_periods and tf = "Some ''week''", OF h1 h2 h3 h4 h5]
    by simp
qed

text \<open>
  C1.  Let two bar series with the same columns agree on their rows with timestamp at most
  \<open>t\<close>: the second is the first with rows after \<open>t\<close> modified, removed or added.  Then the
  accurate re-aggregation gives both the same outcome at \<open>t\<close>: the same error, or the same
  row at \<open>t\<close> (or no row at \<open>t\<close> in both).  The value at \<open>t\<close> is a function of the rows
  with timestamp at most \<open>t\<close>.
\<close>

theorem accurate_no_look_ahead:
  assumes "bar_series df" and "bar_series df'" and "columns df' = columns df"
    and "filter (\<lambda>r. fst r \<le> t) (rows df') = filter (\<lambda>r. fst r \<le> t) (rows df)"
  shows "map_sum id (\<lambda>out. map_of (rows out) t) (to_higher_tf_accurate per df' tf)
         = map_sum id (\<lambda>out. map_of (rows out) t) (to_higher_tf_accurate per df tf)"
proof (cases "tf_priority tf")
  case None
  then show ?thesis
    by (simp add: to_higher_tf_accurate_def)
next
  case (Some p)
  have srt: "sorted_wrt (<) (index df)" "sorted_wrt (<) (index df')"
    using assms(1,2) by (simp_all add: bar_series_def)
  show ?thesis
  proof (cases "1 < p")
    case False
    then have "to_higher_tf_accurate per df tf = Inr df" "to_higher_tf_accurate per df' tf = Inr df'"
      using Some by (simp_all add: to_higher_tf_accurate_def tf_priority_def)
    moreover have "map_of (rows df') t = map_of (rows df) t"
      using assms(4) map_of_filter_le [of t "rows df"] map_of_filter_le [of t "rows df'"] by simp
    ultimately show ?thesis by simp
  next
    case True
    have "seen_so_far (per (freq_of tf)) (rows df') t = seen_so_far (per (freq_of tf)) (rows df) t"
      using assms(4) by (simp only: seen_so_far_filter)
    moreover have "t \<in> set (index df') \<longleftrightarrow> t \<in> set (index df)"
      using assms(4) by (simp only: index_filter_le)
    ultimately show ?thesis
      using assms(3) by (simp add: accurate_rows [OF srt(1) Some True] accurate_rows [OF srt(2) Some True] map_of_keyed)
  qed
qed

theorem accurate_no_look_ahead_witness:
  "map_sum id (\<lambda>out. map_of (rows out) 7) (to_higher_tf_accurate week_periods two_weeks_revised (Some ''week''))
     = map_sum id (\<lambda>out. map_of (rows out) 7) (to_higher_tf_accurate week_periods two_weeks (Some ''week''))
   \<and> map_sum id (\<lambda>out. map_of (rows out) 7) (to_higher_tf_accurate week_periods two_weeks (Some ''week''))
     = Inr (Some [Some 13, Some 15, Some 12, Some 14, Some 300])"
proof -
  have h1: "bar_series two_weeks"
    by (simp add: bar_series_def two_weeks_def index_def)
  have h2: "bar_series two_weeks_revised"
    by (simp add: bar_series_def two_weeks_revised_def index_def)
  have h3: "columns two_weeks_revised = columns two_weeks"
    by (simp add: two_weeks_revised_def two_weeks_def)
  have h4: "filter (\<lambda>r. fst r \<le> 7) (rows two_weeks_revised) = filter (\<lambda>r. fst r \<le> 7) (rows two_weeks)"
    by (simp add: two_weeks_revised_def two_weeks_def)
  show ?thesis
    using accurate_no_look_ahead [OF h1 h2 h3 h4, of week_periods "Some ''week''"]
    by (simp add: accurate_two_weeks)
qed

section \<open>Merging\<close>

lemma higher_frame_accurate:
  "higher_frame cal per base_df False idx (df', tf) = higher_frame cal per base_df False idx (df, tf)"
  by (simp add: higher_frame_def)

lemma merge_loop_accurate:
  assumes "list_all2 (\<lambda>e' e. snd e' = snd e) data' data"
  shows "merge_loop cal per base_df min_tf False data' result
         = merge_loop cal per base_df min_tf False data result"
  using assms
proof (induction arbitrary: result rule: list_all2_induct)
  case Nil
  show ?case by simp
next
  case (Cons e' data' e data)
  have "higher_frame cal per base_df False (index result) e'
        = higher_frame cal per base_df False (index result) e"
    using Cons.hyps(1) higher_frame_accurate [of cal per base_df "index result" "fst e'" "snd e" "fst e"]
    by (cases e', cases e) simp
  then show ?case
    using Cons.hyps(1) Cons.IH by (simp split: sum.splits)
qed

lemma merge_accurate_two_weeks:
  "mergeTimeframes day_calendar week_periods [(Some two_weeks, Some ''day''), (None, Some ''week'')] False =
     Inr \<lparr>columns = [(''Open'', ''day''), (''High'', ''day''), (''Low'', ''day''),
                     (''Close'', ''day''), (''Volume'', ''day''), (''Open'', ''week''),
                     (''High'', ''week''), (''Low'', ''week''), (''Close'', ''week''),
                     (''Volume'', ''week'')],
          rows = [(4, [Some 10, Some 11, Some 9, Some 10, Some 100,
                       Some 10, Some 11, Some 9, Some 10, Some 100]),
                  (5, [Some 10, Some 14, Some 10, Some 13, Some 200,
                       Some 10, Some 14, Some 9, Some 13, Some 300]),
                  (7, [Some 13, Some 15, Some 12, Some 14, Some 300,
                       Some 13, Some 15, Some 12, Some 14, Some 300]),
                  (8, [Some 14, Some 16, Some 8, Some 9, Some 400,
                       Some 13, Some 16, Some 8, Some 9, Some 700])]\<rparr>"
  by code_simp

lemma min_timeframe_day_week: "min_timeframe [''day'', ''week''] = Inr ''day''"
  by code_simp

text \<open>
  C6.  In accurate mode the result of \<^verbatim>\<open>mergeTimeframes\<close> does not depend on the series
  of the coarser entries.  Two entry lists that carry the same labels and the same entries
  under the finest label give the same result, error or table, whatever series (or
  \<^verbatim>\<open>None\<close>) the other entries hold: their columns are recomputed from the base series by
  the accurate re-aggregation.
\<close>

theorem accurate_merge_ignores_supplied:
  assumes labels: "map snd data' = map snd data"
    and base: "\<And>m. min_timeframe (timeframes_of data) = Inr m \<Longrightarrow>
                 filter (\<lambda>entry. snd entry = Some m) data' = filter (\<lambda>entry. snd entry = Some m) data"
  shows "mergeTimeframes cal per data' False = mergeTimeframes cal per data False"
proof -
  have tfs: "timeframes_of data' = timeframes_of data"
    using labels by (simp add: timeframes_of_def)
  have "list_all2 (=) (map snd data') (map snd data)"
    using labels by (simp add: list_all2_eq [symmetric])
  then have rel: "list_all2 (\<lambda>e' e. snd e' = snd e) data' data"
    by (simp add: list_all2_map1 list_all2_map2)
  show ?thesis
  proof (cases "min_timeframe (timeframes_of data)")
    case (Inl e)
    then show ?thesis
      by (simp add: mergeTimeframes_def tfs Let_def)
  next
    case (Inr m)
    show ?thesis
      using Inr base [OF Inr] merge_loop_accurate [OF rel]
      by (simp add: mergeTimeframes_def tfs Let_def split: list.splits option.splits)
  qed
qed

theorem accurate_merge_ignores_supplied_witness:
  "mergeTimeframes day_calendar week_periods
       [(Some two_weeks, Some ''day''), (Some supplied_week, Some ''week'')] False =
     Inr \<lparr>columns = [(''Open'', ''day''), (''High'', ''day''), (''Low'', ''day''),
                     (''Close'', ''day''), (''Volume'', ''day''), (''Open'', ''week''),
                     (''High'', ''week''), (''Low'', ''week''), (''Close'', ''week''),
                     (''Volume'', ''week'')],
          rows = [(4, [Some 10, Some 11, Some 9, Some 10, Some 100,
                       Some 10, Some 11, Some 9, Some 10, Some 100]),
                  (5, [Some 10, Some 14, Some 10, Some 13, Some 200,
                       Some 10, Some 14, Some 9, Some 13, Some 300]),
                  (7, [Some 13, Some 15, Some 12, Some 14, Some 300,
                       Some 13, Some 15, Some 12, Some 14, Some 300]),
                  (8, [Some 14, Some 16, Some 8, Some 9, Some 400,
                       Some 13, Some 16, Some 8, Some 9, Some 700])]\<rparr>"
proof -
  let ?data' = "[(Some two_weeks, Some ''day''), (Some supplied_week, Some ''week'')]"
  let ?data = "[(Some two_weeks, Some ''day''), (None, Some ''week'')]"
  have h1: "map snd ?data' = map snd ?data"
    by simp
  have h2: "filter (\<lambda>entry. snd entry = Some m) ?data' = filter (\<lambda>entry. snd entry = Some m) ?data"
    if "min_timeframe (timeframes_of ?data) = Inr m" for m
    using that by (auto simp: timeframes_of_def min_timeframe_day_week)
  show ?thesis
    using accurate_merge_ignores_supplied [OF h1 h2, of day_calendar week_periods]
    by (simp only: merge_accurate_two_weeks)
qed

text \<open>In fast mode an entry without series and with a label raises, whatever the base.\<close>

lemma higher_frame_fast_absent:
  "higher_frame cal per base_df True idx (None, Some tf) = Inl AttributeError"
  by (simp add: higher_frame_def)

text \<open>
  C4 at a failing input, the example of the docstring of \<^verbatim>\<open>mergeTimeframes\<close>: a daily
  series and an absent weekly series, \<^verbatim>\<open>[(daily_df, "day"), (None, "week")]\<close>.  In fast
  mode the weekly series is not derived and the call raises \<^verbatim>\<open>AttributeError\<close>.
\<close>

theorem merge_fast_absent_series_fails:
  "mergeTimeframes day_calendar week_periods [(Some two_weeks, Some ''day''), (None, Some ''week'')] True
     = Inl AttributeError"
  by code_simp

end
